theory Spec2Isabelle
  imports Complex_Main "HOL-Library.AList" "HOL-Library.Multiset"
begin

section \<open>Word concatenation (app/words/service.py)\<close>

text \<open>
  Python strings are modelled as \<^typ>\<open>string\<close>: a list of characters, where a character
  stands for one code point in the range U+0000 .. U+00FF. \<open>len\<close> is \<^const>\<open>length\<close> and
  \<open>word[index]\<close> is \<open>word ! index\<close>, guarded by the range check of the source.
\<close>

record WordConcatResponse =
  result :: string
  words :: "string list"
  characters_extracted :: nat
  characters_skipped :: nat

text \<open>\<open>_is_valid_index\<close>: \<^verbatim>\<open>return 0 <= index < len(word)\<close>.\<close>

definition is_valid_index :: "string \<Rightarrow> nat \<Rightarrow> bool" where
  "is_valid_index word index = (0 \<le> index \<and> index < length word)"

text \<open>
  The loop of \<open>_extract_characters_by_index\<close> over \<open>enumerate(words)\<close>: the index, the
  words still to visit, and the two accumulators \<open>result_chars\<close> and \<open>skipped_count\<close>.
\<close>

fun extract_loop :: "nat \<Rightarrow> string list \<Rightarrow> string \<Rightarrow> nat \<Rightarrow> string \<times> nat" where
  "extract_loop index [] result_chars skipped_count = (result_chars, skipped_count)"
| "extract_loop index (word # rest) result_chars skipped_count =
     (if is_valid_index word index
      then extract_loop (Suc index) rest (result_chars @ [word ! index]) skipped_count
      else extract_loop (Suc index) rest result_chars (Suc skipped_count))"

definition extract_characters_by_index :: "string list \<Rightarrow> string \<times> nat" where
  "extract_characters_by_index ws = extract_loop 0 ws [] 0"

definition concatenate_words :: "string list \<Rightarrow> WordConcatResponse" where
  "concatenate_words ws =
     (let (extracted_chars, skipped_count) = extract_characters_by_index ws
      in \<lparr>result = extracted_chars, words = ws,
          characters_extracted = length extracted_chars,
          characters_skipped = skipped_count\<rparr>)"

text \<open>The positions of a word list that yield a character, and those that do not.\<close>

definition long_enough :: "nat \<times> string \<Rightarrow> bool" where
  "long_enough p = (fst p < length (snd p))"

definition extracted_positions :: "nat \<Rightarrow> string list \<Rightarrow> (nat \<times> string) list" where
  "extracted_positions k ws = filter long_enough (enumerate k ws)"

definition skipped_positions :: "nat \<Rightarrow> string list \<Rightarrow> (nat \<times> string) list" where
  "skipped_positions k ws = filter (\<lambda>p. \<not> long_enough p) (enumerate k ws)"

definition char_at :: "nat \<times> string \<Rightarrow> char" where
  "char_at p = snd p ! fst p"


section \<open>Strings (the builtins \<open>str.strip\<close>, \<open>str.split\<close>)\<close>

text \<open>
  Whitespace as \<open>str.isspace\<close>, \<open>str.strip()\<close>, \<open>str.split()\<close> and the regular expression
  class \<open>\s\<close> see it, on the code points below 256: U+0009..U+000D, U+001C..U+0020,
  U+0085 and U+00A0.
\<close>

definition is_space :: "char \<Rightarrow> bool" where
  "is_space c = (of_char c \<in> {9, 10, 11, 12, 13, 28, 29, 30, 31, 32, 133, 160 :: nat})"

definition strip :: "string \<Rightarrow> string" where
  "strip s = rev (dropWhile is_space (rev (dropWhile is_space s)))"

text \<open>
  \<open>s.split(sep)\<close> for a one-character separator and \<open>re.split\<close> on a character class:
  the pieces between the separator characters, empty pieces included (never an empty list).
\<close>

fun split_sep :: "(char \<Rightarrow> bool) \<Rightarrow> string \<Rightarrow> string list" where
  "split_sep p [] = [[]]"
| "split_sep p (c # cs) =
     (if p c then [] # split_sep p cs
      else (case split_sep p cs of [] \<Rightarrow> [[c]] | w # ws \<Rightarrow> (c # w) # ws))"

text \<open>\<open>s.split()\<close>: the maximal runs of non-whitespace characters.\<close>

definition split_ws :: "string \<Rightarrow> string list" where
  "split_ws s = filter (\<lambda>w. w \<noteq> []) (split_sep is_space s)"

section \<open>Errors\<close>

text \<open>
  Every \<open>raise\<close> of the modelled code is a value. The parsers raise \<open>ValueError\<close> with a
  message; the message is kept as a constructor that carries the names the message quotes.
  \<open>InvalidOperation\<close> is the exception of the \<open>decimal\<close> module, \<open>JSONDecodeError\<close> that
  of \<open>json\<close>. \<open>OutsideModel\<close> marks an input on which the model makes no statement.
\<close>

datatype value_error =
    CostsInputEmpty
  | CostNotNumber string
  | CostNegative string
  | InvalidPriceFormat string string
  | FloatConversion string
  | CouldNotParseCosts
  | ItemsInputEmpty
  | NoItems
  | WordEmpty
  | DefinitionEmpty
  | WordEmptyOrWhitespace

datatype error =
    ValueError value_error
  | JSONDecodeError
  | InvalidOperation
  | OverflowError
  | AttributeError
  | IntegrityError
  | DictionaryWordAlreadyExistsError string
  | DictionaryWordNotFoundError string
  | OutsideModel

section \<open>Floating point (the builtin \<open>float\<close>)\<close>

text \<open>
  A Python \<open>float\<close> is an IEEE 754 binary64 value. A finite one is modelled by the rational
  number it denotes (so \<open>-0.0\<close> and \<open>0.0\<close> are one value, as they are for \<open>==\<close> and \<open><\<close>);
  every arithmetic operation is the exact operation followed by rounding to the nearest
  representable value, ties to the even significand, overflow to infinity.
\<close>

datatype pyfloat = Finite rat | PInf | NInf | NaN

definition pow :: "nat \<Rightarrow> int \<Rightarrow> rat" where
  "pow b e = (if 0 \<le> e then of_nat b ^ nat e else 1 / of_nat b ^ nat (- e))"

text \<open>The number of digits of \<open>n\<close> in base \<open>b\<close>.\<close>

function ndigits :: "nat \<Rightarrow> nat \<Rightarrow> nat" where
  "ndigits b n = (if n = 0 \<or> b < 2 then 0 else Suc (ndigits b (n div b)))"
  by pat_completeness auto
termination
  by (relation "measure snd") auto

declare ndigits.simps [simp del]

text \<open>For \<open>q > 0\<close>, the integer \<open>e\<close> with \<open>b ^ e \<le> q < b ^ (e + 1)\<close>.\<close>

definition ilog :: "nat \<Rightarrow> rat \<Rightarrow> int" where
  "ilog b q = (if 1 \<le> q then int (ndigits b (nat \<lfloor>q\<rfloor>)) - 1
               else - int (ndigits b (nat (\<lceil>1 / q\<rceil> - 1))))"

definition round_tie :: "rat \<Rightarrow> int \<Rightarrow> int" where
  "round_tie r f =
     (if r < 1 / 2 then f else if 1 / 2 < r then f + 1 else if even f then f else f + 1)"

definition round_half_even :: "rat \<Rightarrow> int" where
  "round_half_even q = round_tie (q - of_int \<lfloor>q\<rfloor>) \<lfloor>q\<rfloor>"

text \<open>
  The spacing of the binary64 values around \<open>a > 0\<close>: 53 significant bits, and
  \<open>2 ^ -1074\<close> in the subnormal range.
\<close>

definition quantum :: "rat \<Rightarrow> rat" where
  "quantum a = pow 2 (max (ilog 2 a - 52) (- 1074))"

definition round_to_quantum :: "rat \<Rightarrow> rat \<Rightarrow> rat" where
  "round_to_quantum a u = of_int (round_half_even (a / u)) * u"

definition float_overflow :: "bool \<Rightarrow> rat \<Rightarrow> pyfloat" where
  "float_overflow neg r =
     (if pow 2 1024 \<le> r then (if neg then NInf else PInf)
      else Finite (if neg then - r else r))"

text \<open>
  \<open>float_round q\<close> is the binary64 value nearest to \<open>q\<close>: what a float literal, \<open>float(s)\<close>
  of a decimal string and \<open>float(d)\<close> of a \<open>Decimal\<close> return for the number \<open>q\<close>.
\<close>

definition float_round :: "rat \<Rightarrow> pyfloat" where
  "float_round q =
     (if q = 0 then Finite 0
      else float_overflow (q < 0) (round_to_quantum \<bar>q\<bar> (quantum \<bar>q\<bar>)))"

text \<open>Addition and multiplication of floats (\<open>+\<close>, \<open>*\<close>), with the IEEE rules for the specials.\<close>

fun fadd :: "pyfloat \<Rightarrow> pyfloat \<Rightarrow> pyfloat" where
  "fadd (Finite a) (Finite b) = float_round (a + b)"
| "fadd NaN y = NaN"
| "fadd x NaN = NaN"
| "fadd PInf NInf = NaN"
| "fadd NInf PInf = NaN"
| "fadd PInf y = PInf"
| "fadd NInf y = NInf"
| "fadd (Finite a) PInf = PInf"
| "fadd (Finite a) NInf = NInf"

fun fmul :: "pyfloat \<Rightarrow> pyfloat \<Rightarrow> pyfloat" where
  "fmul (Finite a) (Finite b) = float_round (a * b)"
| "fmul NaN y = NaN"
| "fmul x NaN = NaN"
| "fmul PInf (Finite b) = (if b = 0 then NaN else if 0 < b then PInf else NInf)"
| "fmul NInf (Finite b) = (if b = 0 then NaN else if 0 < b then NInf else PInf)"
| "fmul (Finite a) PInf = (if a = 0 then NaN else if 0 < a then PInf else NInf)"
| "fmul (Finite a) NInf = (if a = 0 then NaN else if 0 < a then NInf else PInf)"
| "fmul PInf PInf = PInf"
| "fmul PInf NInf = NInf"
| "fmul NInf PInf = NInf"
| "fmul NInf NInf = PInf"

text \<open>The comparison \<open>x < 0\<close>.\<close>

fun float_negative :: "pyfloat \<Rightarrow> bool" where
  "float_negative (Finite a) = (a < 0)"
| "float_negative NInf = True"
| "float_negative PInf = False"
| "float_negative NaN = False"

subsection \<open>\<open>str(x)\<close>: the shortest decimal that reads back as \<open>x\<close>\<close>

text \<open>
  \<open>str\<close> of a finite float prints the decimal with the fewest significant digits that
  \<open>float\<close> maps back to the same value, the closest to it if there are several (the even
  last digit on a tie); 17 digits always suffice. \<open>repr_decimal\<close> is the number that text
  denotes, which is what \<open>Decimal(str(x))\<close> holds. For each digit count \<open>n\<close> the two
  neighbours of \<open>a\<close> on the grid of \<open>n\<close>-digit decimals are tried, the nearer one first.
\<close>

definition pick_candidate :: "rat \<Rightarrow> rat \<Rightarrow> rat \<Rightarrow> rat option" where
  "pick_candidate a c1 c2 =
     (if float_round c1 = Finite a then Some c1
      else if float_round c2 = Finite a then Some c2 else None)"

definition candidates_on_grid :: "rat \<Rightarrow> rat \<Rightarrow> int \<Rightarrow> rat option" where
  "candidates_on_grid a u f =
     (if a - of_int f * u < of_int (f + 1) * u - a
         \<or> (a - of_int f * u = of_int (f + 1) * u - a \<and> even f)
      then pick_candidate a (of_int f * u) (of_int (f + 1) * u)
      else pick_candidate a (of_int (f + 1) * u) (of_int f * u))"

definition grid_unit :: "rat \<Rightarrow> nat \<Rightarrow> rat" where
  "grid_unit a n = pow 10 (ilog 10 a + 1 - int n)"

definition repr_candidate :: "rat \<Rightarrow> nat \<Rightarrow> rat option" where
  "repr_candidate a n = candidates_on_grid a (grid_unit a n) \<lfloor>a / grid_unit a n\<rfloor>"

function shortest_digits :: "rat \<Rightarrow> nat \<Rightarrow> rat" where
  "shortest_digits a n =
     (if 17 < n then a
      else case repr_candidate a n of Some c \<Rightarrow> c | None \<Rightarrow> shortest_digits a (n + 1))"
  by pat_completeness auto
termination
  by (relation "measure (\<lambda>(a, n). 18 - n)") auto

declare shortest_digits.simps [simp del]

definition repr_decimal :: "rat \<Rightarrow> rat" where
  "repr_decimal v =
     (if v = 0 then 0 else if v < 0 then - shortest_digits (- v) 1 else shortest_digits v 1)"

section \<open>Shopping calculator (app/shopping/service.py)\<close>

subsection \<open>\<open>_round_to_decimal_places\<close>\<close>

text \<open>
  \<^verbatim>\<open>Decimal(str(value)).quantize(Decimal('0.01'), rounding=ROUND_HALF_UP)\<close>, then
  \<open>float\<close> of the result. \<open>half_up_cents d\<close> is the coefficient of the quantized decimal
  (the result is that many hundredths); \<open>ROUND_HALF_UP\<close> rounds a tie away from zero.
  \<open>quantize\<close> raises \<open>InvalidOperation\<close> when the coefficient would need more than the 28
  digits of the context, and on an infinity; a NaN passes through.
\<close>

definition half_up_cents :: "rat \<Rightarrow> int" where
  "half_up_cents d = (if 0 \<le> d then \<lfloor>d * 100 + 1 / 2\<rfloor> else - \<lfloor>- d * 100 + 1 / 2\<rfloor>)"

definition quantize_cents :: "rat \<Rightarrow> error + rat" where
  "quantize_cents d =
     (if 10 ^ 28 \<le> \<bar>half_up_cents d\<bar> then Inl InvalidOperation
      else Inr (of_int (half_up_cents d) / 100))"

fun round_to_decimal_places :: "pyfloat \<Rightarrow> error + pyfloat" where
  "round_to_decimal_places (Finite v) =
     (case quantize_cents (repr_decimal v) of
        Inl e \<Rightarrow> Inl e
      | Inr rounded \<Rightarrow> Inr (float_round rounded))"
| "round_to_decimal_places NaN = Inr NaN"
| "round_to_decimal_places PInf = Inl InvalidOperation"
| "round_to_decimal_places NInf = Inl InvalidOperation"

subsection \<open>\<open>_calculate_subtotal\<close>, \<open>_calculate_tax_and_total\<close>, \<open>calculate_total\<close>\<close>

text \<open>
  A \<open>dict\<close> is an association list with distinct keys in insertion order; \<open>costs.get(k)\<close>
  is \<^const>\<open>map_of\<close>.
\<close>

record ShoppingTotalRequest =
  costs :: "(string \<times> pyfloat) list"
  items :: "string list"
  tax :: pyfloat

record ShoppingTotalResponse =
  subtotal :: pyfloat
  tax_amount :: pyfloat
  total_amount :: pyfloat
  items_found :: "string list"
  items_not_found :: "string list"
  items_count :: nat

text \<open>The loop \<open>for item in items\<close> with its three accumulators.\<close>

fun subtotal_loop ::
  "(string \<times> pyfloat) list \<Rightarrow> string list \<Rightarrow> pyfloat \<Rightarrow> string list \<Rightarrow> string list
     \<Rightarrow> pyfloat \<times> string list \<times> string list" where
  "subtotal_loop cs [] sub found not_found = (sub, found, not_found)"
| "subtotal_loop cs (item # rest) sub found not_found =
     (if (if item \<noteq> [] then strip item else []) = []
      then subtotal_loop cs rest sub found not_found
      else (case map_of cs (strip item) of
              Some item_cost \<Rightarrow>
                subtotal_loop cs rest (fadd sub item_cost) (found @ [strip item]) not_found
            | None \<Rightarrow>
                subtotal_loop cs rest sub found (not_found @ [strip item])))"

definition calculate_subtotal ::
  "string list \<Rightarrow> (string \<times> pyfloat) list \<Rightarrow> pyfloat \<times> string list \<times> string list" where
  "calculate_subtotal its cs = subtotal_loop cs its (Finite 0) [] []"

definition calculate_tax_and_total :: "pyfloat \<Rightarrow> pyfloat \<Rightarrow> pyfloat \<times> pyfloat" where
  "calculate_tax_and_total sub tax_rate = (fmul sub tax_rate, fadd sub (fmul sub tax_rate))"

definition round_all ::
  "pyfloat \<Rightarrow> pyfloat \<Rightarrow> pyfloat \<Rightarrow> string list \<Rightarrow> string list \<Rightarrow> error + ShoppingTotalResponse" where
  "round_all sub tax_amt tot found not_found =
     (case round_to_decimal_places sub of
        Inl e \<Rightarrow> Inl e
      | Inr subtotal_rounded \<Rightarrow>
     (case round_to_decimal_places tax_amt of
        Inl e \<Rightarrow> Inl e
      | Inr tax_amount_rounded \<Rightarrow>
     (case round_to_decimal_places tot of
        Inl e \<Rightarrow> Inl e
      | Inr total_rounded \<Rightarrow>
          Inr \<lparr>subtotal = subtotal_rounded, tax_amount = tax_amount_rounded,
               total_amount = total_rounded, items_found = found,
               items_not_found = not_found,
               items_count = length found + length not_found\<rparr>)))"

definition calculate_total :: "ShoppingTotalRequest \<Rightarrow> error + ShoppingTotalResponse" where
  "calculate_total request =
     (case calculate_subtotal (items request) (costs request) of
        (sub, found, not_found) \<Rightarrow>
          (case calculate_tax_and_total sub (tax request) of
             (tax_amt, tot) \<Rightarrow> round_all sub tax_amt tot found not_found))"

text \<open>
  The trimmed, non-empty elements of an item list, in input order, and the test whether an
  item has a price (\<open>costs.get(item) is not None\<close>).
\<close>

definition kept_items :: "string list \<Rightarrow> string list" where
  "kept_items its = filter (\<lambda>i. i \<noteq> []) (map strip its)"

definition priced :: "(string \<times> pyfloat) list \<Rightarrow> string \<Rightarrow> bool" where
  "priced cs i = (map_of cs i \<noteq> None)"

section \<open>Item-list parser (app/shopping/models.py, \<open>_parse_items\<close>)\<close>

text \<open>
  The \<open>if\<close>/\<open>elif\<close> chain of \<open>_parse_items\<close> on the trimmed input: comma, then newline, then
  \<^verbatim>\<open>' ' in items_input and len(items_input.split()) > 1\<close>, then the single item.
\<close>

definition split_items :: "string \<Rightarrow> string list" where
  "split_items items_input =
     (if CHR '','' \<in> set items_input then
        map strip (filter (\<lambda>item. strip item \<noteq> [])
          (split_sep (\<lambda>c. c = CHR '','') items_input))
      else if CHR 0x0A \<in> set items_input then
        map strip (filter (\<lambda>item. strip item \<noteq> [])
          (split_sep (\<lambda>c. c = CHR 0x0A) items_input))
      else if CHR '' '' \<in> set items_input \<and> 1 < length (split_ws items_input) then
        map strip (filter (\<lambda>item. strip item \<noteq> []) (split_ws items_input))
      else (if strip items_input \<noteq> [] then [strip items_input] else []))"

definition parse_items :: "string \<Rightarrow> error + string list" where
  "parse_items raw =
     (if strip raw = [] then Inl (ValueError ItemsInputEmpty)
      else (case filter (\<lambda>item. item \<noteq> []) (split_items (strip raw)) of
              [] \<Rightarrow> Inl (ValueError NoItems)
            | item # rest \<Rightarrow> Inr (item # rest)))"

text \<open>
  The delimiter rules in the words of the specification: comma; else newline; else "contains
  whitespace and splits into more than one token"; else the whole trimmed string. Every token
  is trimmed and empty tokens are dropped.
\<close>

definition spec_item_tokens :: "string \<Rightarrow> string list" where
  "spec_item_tokens s =
     (if CHR '','' \<in> set s then split_sep (\<lambda>c. c = CHR '','') s
      else if CHR 0x0A \<in> set s then split_sep (\<lambda>c. c = CHR 0x0A) s
      else if list_ex is_space s \<and> 1 < length (split_ws s) then split_ws s
      else [s])"

definition spec_items :: "string \<Rightarrow> string list" where
  "spec_items raw = filter (\<lambda>t. t \<noteq> []) (map strip (spec_item_tokens (strip raw)))"

text \<open>The same rules with the third one asking for a space character (U+0020).\<close>

definition space_item_tokens :: "string \<Rightarrow> string list" where
  "space_item_tokens s =
     (if CHR '','' \<in> set s then split_sep (\<lambda>c. c = CHR '','') s
      else if CHR 0x0A \<in> set s then split_sep (\<lambda>c. c = CHR 0x0A) s
      else if CHR '' '' \<in> set s \<and> 1 < length (split_ws s) then split_ws s
      else [s])"

definition space_items :: "string \<Rightarrow> string list" where
  "space_items raw = filter (\<lambda>t. t \<noteq> []) (map strip (space_item_tokens (strip raw)))"

section \<open>\<open>float(s)\<close> of a string\<close>

text \<open>
  \<open>float\<close> trims the ASCII whitespace and the non-ASCII spaces, accepts an underscore only
  between two digits, and then reads an optional sign followed by \<open>inf\<close>, \<open>infinity\<close> or
  \<open>nan\<close> (in any letter case) or by a decimal number with an optional fraction and exponent.
  The result is the nearest float; \<open>None\<close> stands for the \<open>ValueError\<close> it raises.
\<close>

definition is_digit :: "char \<Rightarrow> bool" where
  "is_digit c = (48 \<le> (of_char c :: nat) \<and> (of_char c :: nat) \<le> 57)"

definition digits_value :: "string \<Rightarrow> nat" where
  "digits_value ds = foldl (\<lambda>n c. 10 * n + (of_char c - 48)) 0 ds"

definition is_float_space :: "char \<Rightarrow> bool" where
  "is_float_space c = (of_char c \<in> {9, 10, 11, 12, 13, 32, 133, 160 :: nat})"

definition lower_ascii :: "char \<Rightarrow> char" where
  "lower_ascii c =
     (if 65 \<le> (of_char c :: nat) \<and> (of_char c :: nat) \<le> 90
      then char_of (of_char c + 32 :: nat) else c)"

fun underscores_ok :: "char \<Rightarrow> string \<Rightarrow> bool" where
  "underscores_ok prev [] = (prev \<noteq> CHR ''_'')"
| "underscores_ok prev (c # cs) =
     (if c = CHR ''_'' then is_digit prev \<and> underscores_ok c cs
      else if prev = CHR ''_'' then is_digit c \<and> underscores_ok c cs
      else underscores_ok c cs)"

fun fneg :: "pyfloat \<Rightarrow> pyfloat" where
  "fneg (Finite a) = Finite (- a)"
| "fneg PInf = NInf"
| "fneg NInf = PInf"
| "fneg NaN = NaN"

text \<open>The exponent part: nothing, or \<open>e\<close>/\<open>E\<close>, an optional sign and at least one digit.\<close>

definition exponent_digits :: "bool \<Rightarrow> string \<Rightarrow> int option" where
  "exponent_digits neg ds =
     (if ds \<noteq> [] \<and> list_all is_digit ds
      then Some (if neg then - int (digits_value ds) else int (digits_value ds))
      else None)"

fun parse_exponent :: "string \<Rightarrow> int option" where
  "parse_exponent [] = Some 0"
| "parse_exponent (c # cs) =
     (if c = CHR ''e'' \<or> c = CHR ''E'' then
        (case cs of
           [] \<Rightarrow> None
         | s # ds \<Rightarrow>
             if s = CHR ''-'' then exponent_digits True ds
             else if s = CHR ''+'' then exponent_digits False ds
             else exponent_digits False (s # ds))
      else None)"

text \<open>
  Integer digits \<open>ip\<close>, fraction digits \<open>fp\<close> and the rest after them: at least one digit
  overall, and the rest must be an exponent part.
\<close>

definition decimal_value :: "string \<Rightarrow> string \<Rightarrow> string \<Rightarrow> rat option" where
  "decimal_value ip fp rest =
     (if ip = [] \<and> fp = [] then None
      else (case parse_exponent rest of
              None \<Rightarrow> None
            | Some e \<Rightarrow> Some (of_nat (digits_value (ip @ fp)) * pow 10 (e - int (length fp)))))"

definition parse_fraction :: "string \<Rightarrow> string \<Rightarrow> rat option" where
  "parse_fraction ip r =
     (case r of
        [] \<Rightarrow> decimal_value ip [] []
      | c # cs \<Rightarrow>
          if c = CHR ''.'' then decimal_value ip (takeWhile is_digit cs) (dropWhile is_digit cs)
          else decimal_value ip [] (c # cs))"

definition parse_decimal :: "string \<Rightarrow> rat option" where
  "parse_decimal s = parse_fraction (takeWhile is_digit s) (dropWhile is_digit s)"

definition float_unsigned :: "string \<Rightarrow> pyfloat option" where
  "float_unsigned s =
     (if map lower_ascii s = ''inf'' \<or> map lower_ascii s = ''infinity'' then Some PInf
      else if map lower_ascii s = ''nan'' then Some NaN
      else map_option float_round (parse_decimal s))"

definition float_signed :: "string \<Rightarrow> pyfloat option" where
  "float_signed s =
     (case s of
        [] \<Rightarrow> None
      | c # cs \<Rightarrow>
          if c = CHR ''-'' then map_option fneg (float_unsigned cs)
          else if c = CHR ''+'' then float_unsigned cs
          else float_unsigned (c # cs))"

definition float_trim :: "string \<Rightarrow> string" where
  "float_trim s = rev (dropWhile is_float_space (rev (dropWhile is_float_space s)))"

definition py_float :: "string \<Rightarrow> pyfloat option" where
  "py_float s =
     (if underscores_ok (CHR 0x00) (float_trim s)
      then float_signed (filter (\<lambda>c. c \<noteq> CHR ''_'') (float_trim s))
      else None)"

section \<open>Cost-list parser, delimited format (app/shopping/models.py, \<open>_parse_costs\<close>)\<close>

text \<open>
  The regular expression \<^verbatim>\<open>^(.+?)[:]\s*(.+)$\<close> on a line that holds no newline (the lines
  come from a split on newlines): the first group is the shortest non-empty prefix that is
  followed by a colon with at least one character after it; the second group is what follows
  the colon and the whitespace after it (its last character, should only whitespace follow).
\<close>

fun find_colon :: "string \<Rightarrow> string \<Rightarrow> (string \<times> string) option" where
  "find_colon pre [] = None"
| "find_colon pre (c # cs) =
     (if c = CHR '':'' \<and> pre \<noteq> [] \<and> cs \<noteq> [] then Some (pre, cs)
      else find_colon (pre @ [c]) cs)"

definition second_group :: "string \<Rightarrow> string" where
  "second_group rest =
     (case dropWhile is_space rest of [] \<Rightarrow> [last rest] | c # cs \<Rightarrow> c # cs)"

definition match_line :: "string \<Rightarrow> (string \<times> string) option" where
  "match_line line = map_option (\<lambda>(g1, rest). (g1, second_group rest)) (find_colon [] line)"

text \<open>
  \<open>"cannot be negative" in str(e)\<close>, for the \<open>ValueError\<close> of \<open>float\<close>: its message quotes
  the price text, so the test holds when that text contains the phrase.
\<close>

definition starts_with :: "string \<Rightarrow> string \<Rightarrow> bool" where
  "starts_with s prefix = (take (length prefix) s = prefix)"

fun contains :: "string \<Rightarrow> string \<Rightarrow> bool" where
  "contains sub [] = (sub = [])"
| "contains sub (c # cs) = (starts_with (c # cs) sub \<or> contains sub cs)"

text \<open>The body of the \<open>try\<close> for one matched line, with the dictionary built so far.\<close>

definition store_price ::
  "string \<Rightarrow> string \<Rightarrow> (string \<times> pyfloat) list \<Rightarrow> error + (string \<times> pyfloat) list" where
  "store_price item price_str costs_dict =
     (case py_float price_str of
        None \<Rightarrow>
          if contains ''cannot be negative'' price_str
          then Inl (ValueError (FloatConversion price_str))
          else Inl (ValueError (InvalidPriceFormat item price_str))
      | Some price \<Rightarrow>
          if float_negative price then Inl (ValueError (CostNegative item))
          else Inr (AList.update item price costs_dict))"

text \<open>The loop \<open>for line in lines\<close>.\<close>

fun parse_lines ::
  "string list \<Rightarrow> (string \<times> pyfloat) list \<Rightarrow> error + (string \<times> pyfloat) list" where
  "parse_lines [] costs_dict = Inr costs_dict"
| "parse_lines (line # rest) costs_dict =
     (if strip line = [] then parse_lines rest costs_dict
      else (case match_line (strip line) of
              None \<Rightarrow> parse_lines rest costs_dict
            | Some (g1, g2) \<Rightarrow>
                if strip g1 = [] then parse_lines rest costs_dict
                else (case store_price (strip g1) (strip g2) costs_dict of
                        Inl e \<Rightarrow> Inl e
                      | Inr costs_dict' \<Rightarrow> parse_lines rest costs_dict')))"

definition is_line_sep :: "char \<Rightarrow> bool" where
  "is_line_sep c = (c = CHR '','' \<or> c = CHR '';'' \<or> c = CHR 0x0A)"

text \<open>The part of \<open>_parse_costs\<close> after the JSON attempt, on the trimmed input.\<close>

definition parse_delimited :: "string \<Rightarrow> error + (string \<times> pyfloat) list" where
  "parse_delimited costs_input =
     (case parse_lines (split_sep is_line_sep costs_input) [] of
        Inl e \<Rightarrow> Inl e
      | Inr [] \<Rightarrow> Inl (ValueError CouldNotParseCosts)
      | Inr (p # ps) \<Rightarrow> Inr (p # ps))"

text \<open>
  What one candidate line contributes: nothing when it is blank or does not have the form
  \<open>name:price\<close>, an error when the price text is not accepted by \<open>float\<close> or is negative,
  and otherwise a name with its price.
\<close>

definition line_pair :: "string \<Rightarrow> (string \<times> string) option" where
  "line_pair line =
     (if strip line = [] then None
      else (case match_line (strip line) of
              None \<Rightarrow> None
            | Some (g1, g2) \<Rightarrow> if strip g1 = [] then None else Some (strip g1, strip g2)))"

datatype line_kind = Skipped | Rejected error | Accepted string pyfloat

definition classify_line :: "string \<Rightarrow> line_kind" where
  "classify_line line =
     (case line_pair line of
        None \<Rightarrow> Skipped
      | Some (item, price_str) \<Rightarrow>
          (case py_float price_str of
             None \<Rightarrow>
               Rejected (ValueError
                 (if contains ''cannot be negative'' price_str then FloatConversion price_str
                  else InvalidPriceFormat item price_str))
           | Some price \<Rightarrow>
               if float_negative price then Rejected (ValueError (CostNegative item))
               else Accepted item price))"

fun first_rejected :: "string list \<Rightarrow> error option" where
  "first_rejected [] = None"
| "first_rejected (line # rest) =
     (case classify_line line of Rejected e \<Rightarrow> Some e | _ \<Rightarrow> first_rejected rest)"

fun accepted_pairs :: "string list \<Rightarrow> (string \<times> pyfloat) list" where
  "accepted_pairs [] = []"
| "accepted_pairs (line # rest) =
     (case classify_line line of
        Accepted item price \<Rightarrow> (item, price) # accepted_pairs rest
      | _ \<Rightarrow> accepted_pairs rest)"

text \<open>Writing pairs into a dictionary one after the other (\<open>d[k] = v\<close>).\<close>

definition write_all ::
  "(string \<times> pyfloat) list \<Rightarrow> (string \<times> pyfloat) list \<Rightarrow> (string \<times> pyfloat) list" where
  "write_all d ps = foldl (\<lambda>d p. AList.update (fst p) (snd p) d) d ps"

section \<open>\<open>json.loads\<close>\<close>

text \<open>
  The decoder of the standard library in its default, strict configuration, as one pass over
  the characters: a scanner that emits tokens, and a stack of open arrays and objects that
  consumes them. Literals and numbers are scanned as maximal runs of letters, digits, signs
  and dots (no such character may follow a complete value), and classified when the run ends.
  An object becomes a \<open>dict\<close>: a repeated key keeps its first position and takes the last
  value. Two things are outside the model and reported as \<open>OutsideModel\<close>: a \<open>\u\<close> escape for
  a code point above U+00FF, and an integer literal of more than 4300 digits (which newer
  interpreters refuse with a \<open>ValueError\<close>). The interpreter's limit on nesting depth is not
  modelled.
\<close>

datatype json =
    JNull
  | JBool bool
  | JInt int
  | JFloat pyfloat
  | JString string
  | JArray "json list"
  | JObject "(string \<times> json) list"

datatype token =
    TOpenObj | TCloseObj | TOpenArr | TCloseArr | TColon | TComma
  | TAtom string
  | TString string
  | TError error

datatype lex_mode = LTop | LAtom string | LString string | LEscape string | LHex string string

definition is_json_space :: "char \<Rightarrow> bool" where
  "is_json_space c = (c = CHR '' '' \<or> c = CHR 0x09 \<or> c = CHR 0x0A \<or> c = CHR 0x0D)"

definition is_letter :: "char \<Rightarrow> bool" where
  "is_letter c = ((65 \<le> (of_char c :: nat) \<and> (of_char c :: nat) \<le> 90)
                  \<or> (97 \<le> (of_char c :: nat) \<and> (of_char c :: nat) \<le> 122))"

definition is_atom_char :: "char \<Rightarrow> bool" where
  "is_atom_char c =
     (is_digit c \<or> is_letter c \<or> c = CHR ''-'' \<or> c = CHR ''+'' \<or> c = CHR ''.'')"

definition hex_digit :: "char \<Rightarrow> nat option" where
  "hex_digit c =
     (if is_digit c then Some (of_char c - 48)
      else if 97 \<le> (of_char c :: nat) \<and> (of_char c :: nat) \<le> 102 then Some (of_char c - 87)
      else if 65 \<le> (of_char c :: nat) \<and> (of_char c :: nat) \<le> 70 then Some (of_char c - 55)
      else None)"

definition hex_value :: "string \<Rightarrow> nat" where
  "hex_value h = foldl (\<lambda>n c. 16 * n + (case hex_digit c of Some d \<Rightarrow> d | None \<Rightarrow> 0)) 0 h"

definition top_step :: "char \<Rightarrow> token list \<times> lex_mode" where
  "top_step c =
     (if is_json_space c then ([], LTop)
      else if c = CHR ''{'' then ([TOpenObj], LTop)
      else if c = CHR ''}'' then ([TCloseObj], LTop)
      else if c = CHR ''['' then ([TOpenArr], LTop)
      else if c = CHR '']'' then ([TCloseArr], LTop)
      else if c = CHR '':'' then ([TColon], LTop)
      else if c = CHR '','' then ([TComma], LTop)
      else if c = CHR 0x22 then ([], LString [])
      else if is_atom_char c then ([], LAtom [c])
      else ([TError JSONDecodeError], LTop))"

definition escape_step :: "string \<Rightarrow> char \<Rightarrow> token list \<times> lex_mode" where
  "escape_step s c =
     (if c = CHR 0x22 \<or> c = CHR 0x5C \<or> c = CHR ''/'' then ([], LString (s @ [c]))
      else if c = CHR ''b'' then ([], LString (s @ [CHR 0x08]))
      else if c = CHR ''f'' then ([], LString (s @ [CHR 0x0C]))
      else if c = CHR ''n'' then ([], LString (s @ [CHR 0x0A]))
      else if c = CHR ''r'' then ([], LString (s @ [CHR 0x0D]))
      else if c = CHR ''t'' then ([], LString (s @ [CHR 0x09]))
      else if c = CHR ''u'' then ([], LHex s [])
      else ([TError JSONDecodeError], LTop))"

definition hex_step :: "string \<Rightarrow> string \<Rightarrow> char \<Rightarrow> token list \<times> lex_mode" where
  "hex_step s h c =
     (if hex_digit c = None then ([TError JSONDecodeError], LTop)
      else if length h < 3 then ([], LHex s (h @ [c]))
      else if hex_value (h @ [c]) < 256 then ([], LString (s @ [char_of (hex_value (h @ [c]))]))
      else ([TError OutsideModel], LTop))"

fun lex_step :: "lex_mode \<Rightarrow> char \<Rightarrow> token list \<times> lex_mode" where
  "lex_step LTop c = top_step c"
| "lex_step (LAtom a) c =
     (if is_atom_char c then ([], LAtom (a @ [c]))
      else (TAtom a # fst (top_step c), snd (top_step c)))"
| "lex_step (LString s) c =
     (if c = CHR 0x22 then ([TString s], LTop)
      else if c = CHR 0x5C then ([], LEscape s)
      else if (of_char c :: nat) < 32 then ([TError JSONDecodeError], LTop)
      else ([], LString (s @ [c])))"
| "lex_step (LEscape s) c = escape_step s c"
| "lex_step (LHex s h) c = hex_step s h c"

text \<open>At the end of the input: a pending run is a token, an open string is an error.\<close>

fun lex_flush :: "lex_mode \<Rightarrow> token list" where
  "lex_flush LTop = []"
| "lex_flush (LAtom a) = [TAtom a]"
| "lex_flush (LString s) = [TError JSONDecodeError]"
| "lex_flush (LEscape s) = [TError JSONDecodeError]"
| "lex_flush (LHex s h) = [TError JSONDecodeError]"

subsection \<open>Literals and numbers\<close>

text \<open>
  A number is \<^verbatim>\<open>-?(0|[1-9][0-9]*)(\.[0-9]+)?([eE][-+]?[0-9]+)?\<close>: an \<open>int\<close> when it has
  neither fraction nor exponent, else the \<open>float\<close> of its text.
\<close>

definition number_value :: "bool \<Rightarrow> string \<Rightarrow> string \<Rightarrow> string \<Rightarrow> error + json" where
  "number_value neg ip fp rest =
     (if fp = [] \<and> rest = [] then
        (if 4300 < length ip then Inl OutsideModel
         else Inr (JInt (if neg then - int (digits_value ip) else int (digits_value ip))))
      else (case decimal_value ip fp rest of
              None \<Rightarrow> Inl JSONDecodeError
            | Some q \<Rightarrow> Inr (JFloat (float_round (if neg then - q else q)))))"

definition number_fraction :: "bool \<Rightarrow> string \<Rightarrow> string \<Rightarrow> error + json" where
  "number_fraction neg ip r =
     (case r of
        [] \<Rightarrow> number_value neg ip [] []
      | c # cs \<Rightarrow>
          if c = CHR ''.'' then
            (if takeWhile is_digit cs = [] then Inl JSONDecodeError
             else number_value neg ip (takeWhile is_digit cs) (dropWhile is_digit cs))
          else number_value neg ip [] (c # cs))"

definition number_body :: "bool \<Rightarrow> string \<Rightarrow> error + json" where
  "number_body neg s =
     (if takeWhile is_digit s = [] then Inl JSONDecodeError
      else if hd s = CHR ''0'' \<and> takeWhile is_digit s \<noteq> ''0'' then Inl JSONDecodeError
      else number_fraction neg (takeWhile is_digit s) (dropWhile is_digit s))"

definition atom_value :: "string \<Rightarrow> error + json" where
  "atom_value a =
     (if a = ''null'' then Inr JNull
      else if a = ''true'' then Inr (JBool True)
      else if a = ''false'' then Inr (JBool False)
      else if a = ''NaN'' then Inr (JFloat NaN)
      else if a = ''Infinity'' then Inr (JFloat PInf)
      else if a = ''-Infinity'' then Inr (JFloat NInf)
      else (case a of
              [] \<Rightarrow> Inl JSONDecodeError
            | c # cs \<Rightarrow> if c = CHR ''-'' then number_body True cs else number_body False (c # cs)))"

subsection \<open>The stack of open containers\<close>

datatype frame = ArrFrame "json list" | ObjFrame "(string \<times> json) list" "string option"

datatype phase =
    NeedValue | NeedValueOrClose | NeedKeyOrClose | NeedKey | NeedColon | AfterValue
  | Done json

fun push_value :: "json \<Rightarrow> frame list \<Rightarrow> error + (frame list \<times> phase)" where
  "push_value v [] = Inr ([], Done v)"
| "push_value v (ArrFrame xs # st) = Inr (ArrFrame (xs @ [v]) # st, AfterValue)"
| "push_value v (ObjFrame ps (Some k) # st) =
     Inr (ObjFrame (AList.update k v ps) None # st, AfterValue)"
| "push_value v (ObjFrame ps None # st) = Inl JSONDecodeError"

fun begin_value :: "token \<Rightarrow> frame list \<Rightarrow> error + (frame list \<times> phase)" where
  "begin_value (TAtom a) st =
     (case atom_value a of Inl e \<Rightarrow> Inl e | Inr v \<Rightarrow> push_value v st)"
| "begin_value (TString s) st = push_value (JString s) st"
| "begin_value TOpenArr st = Inr (ArrFrame [] # st, NeedValueOrClose)"
| "begin_value TOpenObj st = Inr (ObjFrame [] None # st, NeedKeyOrClose)"
| "begin_value (TError e) st = Inl e"
| "begin_value t st = Inl JSONDecodeError"

fun close_array :: "frame list \<Rightarrow> error + (frame list \<times> phase)" where
  "close_array (ArrFrame xs # st) = push_value (JArray xs) st"
| "close_array st = Inl JSONDecodeError"

fun close_object :: "frame list \<Rightarrow> error + (frame list \<times> phase)" where
  "close_object (ObjFrame ps None # st) = push_value (JObject ps) st"
| "close_object st = Inl JSONDecodeError"

fun set_key :: "string \<Rightarrow> frame list \<Rightarrow> error + (frame list \<times> phase)" where
  "set_key k (ObjFrame ps None # st) = Inr (ObjFrame ps (Some k) # st, NeedColon)"
| "set_key k st = Inl JSONDecodeError"

fun after_value :: "token \<Rightarrow> frame list \<Rightarrow> error + (frame list \<times> phase)" where
  "after_value TComma (ArrFrame xs # st) = Inr (ArrFrame xs # st, NeedValue)"
| "after_value TCloseArr (ArrFrame xs # st) = close_array (ArrFrame xs # st)"
| "after_value TComma (ObjFrame ps k # st) = Inr (ObjFrame ps k # st, NeedKey)"
| "after_value TCloseObj (ObjFrame ps k # st) = close_object (ObjFrame ps k # st)"
| "after_value (TError e) st = Inl e"
| "after_value t st = Inl JSONDecodeError"

fun parse_step :: "token \<Rightarrow> frame list \<Rightarrow> phase \<Rightarrow> error + (frame list \<times> phase)" where
  "parse_step (TError e) st ph = Inl e"
| "parse_step t st NeedValue = begin_value t st"
| "parse_step t st NeedValueOrClose =
     (if t = TCloseArr then close_array st else begin_value t st)"
| "parse_step t st NeedKeyOrClose =
     (case t of TString k \<Rightarrow> set_key k st | TCloseObj \<Rightarrow> close_object st
      | _ \<Rightarrow> Inl JSONDecodeError)"
| "parse_step t st NeedKey =
     (case t of TString k \<Rightarrow> set_key k st | _ \<Rightarrow> Inl JSONDecodeError)"
| "parse_step t st NeedColon =
     (if t = TColon then Inr (st, NeedValue) else Inl JSONDecodeError)"
| "parse_step t st AfterValue = after_value t st"
| "parse_step t st (Done v) = Inl JSONDecodeError"

fun feed :: "token list \<Rightarrow> frame list \<Rightarrow> phase \<Rightarrow> error + (frame list \<times> phase)" where
  "feed [] st ph = Inr (st, ph)"
| "feed (t # ts) st ph =
     (case parse_step t st ph of Inl e \<Rightarrow> Inl e | Inr (st', ph') \<Rightarrow> feed ts st' ph')"

fun json_finish :: "error + (frame list \<times> phase) \<Rightarrow> error + json" where
  "json_finish (Inl e) = Inl e"
| "json_finish (Inr (st, Done v)) = Inr v"
| "json_finish (Inr (st, ph)) = Inl JSONDecodeError"

fun json_run :: "lex_mode \<Rightarrow> frame list \<Rightarrow> phase \<Rightarrow> string \<Rightarrow> error + json" where
  "json_run m st ph [] = json_finish (feed (lex_flush m) st ph)"
| "json_run m st ph (c # cs) =
     (case feed (fst (lex_step m c)) st ph of
        Inl e \<Rightarrow> Inl e
      | Inr (st', ph') \<Rightarrow> json_run (snd (lex_step m c)) st' ph' cs)"

definition json_loads :: "string \<Rightarrow> error + json" where
  "json_loads s = json_run LTop [] NeedValue s"

section \<open>Cost-list parser (app/shopping/models.py, \<open>_parse_costs\<close>)\<close>

text \<open>
  The validation loop over \<open>costs_dict.items()\<close>. \<open>isinstance(value, (int, float))\<close> holds for
  an \<open>int\<close>, a \<open>float\<close> and also a \<open>bool\<close> (a subclass of \<open>int\<close>, with \<open>True == 1\<close>);
  \<open>float(value)\<close> of an \<open>int\<close> beyond the float range raises \<open>OverflowError\<close>.
\<close>

definition int_to_float :: "int \<Rightarrow> error + pyfloat" where
  "int_to_float n =
     (case float_round (of_int n) of Finite v \<Rightarrow> Inr (Finite v) | _ \<Rightarrow> Inl OverflowError)"

fun json_cost :: "string \<Rightarrow> json \<Rightarrow> error + pyfloat" where
  "json_cost key (JInt n) =
     (if n < 0 then Inl (ValueError (CostNegative key)) else int_to_float n)"
| "json_cost key (JFloat f) =
     (if float_negative f then Inl (ValueError (CostNegative key)) else Inr f)"
| "json_cost key (JBool b) = Inr (Finite (if b then 1 else 0))"
| "json_cost key v = Inl (ValueError (CostNotNumber key))"

fun validate_costs :: "(string \<times> json) list \<Rightarrow> error + (string \<times> pyfloat) list" where
  "validate_costs [] = Inr []"
| "validate_costs ((key, v) # rest) =
     (case json_cost key v of
        Inl e \<Rightarrow> Inl e
      | Inr f \<Rightarrow>
          (case validate_costs rest of
             Inl e \<Rightarrow> Inl e
           | Inr checked \<Rightarrow> Inr ((key, f) # checked)))"

text \<open>
  After \<open>json.loads\<close>: a decoded object is validated and returned; only a
  \<open>JSONDecodeError\<close> is caught, and then the delimited format is tried on the same text.
\<close>

fun after_json :: "string \<Rightarrow> error + json \<Rightarrow> error + (string \<times> pyfloat) list" where
  "after_json s (Inr (JObject pairs)) = validate_costs pairs"
| "after_json s (Inr v) = Inl AttributeError"
| "after_json s (Inl JSONDecodeError) = parse_delimited s"
| "after_json s (Inl e) = Inl e"

definition parse_costs :: "string \<Rightarrow> error + (string \<times> pyfloat) list" where
  "parse_costs raw =
     (if strip raw = [] then Inl (ValueError CostsInputEmpty)
      else if starts_with (strip (strip raw)) ''{''
      then after_json (strip raw) (json_loads (strip raw))
      else parse_delimited (strip raw))"

section \<open>Dictionary (app/dictionary/service.py)\<close>

text \<open>
  \<open>str.lower\<close> on the code points below 256: the letters A to Z and the letters U+00C0 to
  U+00DE other than the multiplication sign U+00D7 move up by 32; nothing else changes.
\<close>

definition lower_char :: "char \<Rightarrow> char" where
  "lower_char c =
     (if (65 \<le> (of_char c :: nat) \<and> (of_char c :: nat) \<le> 90)
         \<or> (192 \<le> (of_char c :: nat) \<and> (of_char c :: nat) \<le> 214)
         \<or> (216 \<le> (of_char c :: nat) \<and> (of_char c :: nat) \<le> 222)
      then char_of (of_char c + 32 :: nat) else c)"

definition lower :: "string \<Rightarrow> string" where
  "lower s = map lower_char s"

record DictionaryEntry =
  entry_word :: string
  entry_definition :: string

text \<open>
  Modelled from the spec: the repository (\<open>app/dictionary/repository.py\<close>) and the entry
  class (\<open>app/dictionary/db_models.py\<close>) are not among the sources; only the tests of the
  repository are. The specification describes the store as a lookup keyed by the lowercased
  word with a uniqueness constraint; the tests add that \<open>find_by_word\<close> is case-insensitive
  and returns \<open>None\<close> when nothing matches, that \<open>create\<close> trims both texts and refuses an
  empty one with a \<open>ValueError\<close>, that created entries become permanent on \<open>commit\<close> and are
  dropped on \<open>rollback\<close>. The rows are the committed entries, \<open>pending\<close> those created since
  the last commit; a query sees both. The creation timestamp and the row id are left out.
\<close>

record Repository =
  rows :: "DictionaryEntry list"
  pending :: "DictionaryEntry list"

definition same_word :: "string \<Rightarrow> DictionaryEntry \<Rightarrow> bool" where
  "same_word w e = (lower (entry_word e) = lower w)"

definition find_by_word :: "Repository \<Rightarrow> string \<Rightarrow> DictionaryEntry option" where
  "find_by_word repo w = find (same_word w) (rows repo @ pending repo)"

definition create ::
  "Repository \<Rightarrow> string \<Rightarrow> string \<Rightarrow> (error + DictionaryEntry) \<times> Repository" where
  "create repo w d =
     (if strip w = [] then (Inl (ValueError WordEmpty), repo)
      else if strip d = [] then (Inl (ValueError DefinitionEmpty), repo)
      else if list_ex (same_word (strip w)) (rows repo @ pending repo)
      then (Inl IntegrityError, repo)
      else (Inr \<lparr>entry_word = strip w, entry_definition = strip d\<rparr>,
            repo\<lparr>pending := pending repo
               @ [\<lparr>entry_word = strip w, entry_definition = strip d\<rparr>]\<rparr>))"

definition commit :: "Repository \<Rightarrow> Repository" where
  "commit repo = \<lparr>rows = rows repo @ pending repo, pending = []\<rparr>"

definition rollback :: "Repository \<Rightarrow> Repository" where
  "rollback repo = repo\<lparr>pending := []\<rparr>"

text \<open>
  The service, from the source. Every operation returns its result together with the
  repository it leaves behind.
\<close>

definition validate_word_input :: "string \<Rightarrow> string \<Rightarrow> error option" where
  "validate_word_input w d =
     (if w = [] \<or> strip w = [] then Some (ValueError WordEmpty)
      else if d = [] \<or> strip d = [] then Some (ValueError DefinitionEmpty)
      else None)"

text \<open>The \<open>try\<close> block of \<open>add_word\<close> with its two handlers.\<close>

fun finish_create ::
  "string \<Rightarrow> (error + DictionaryEntry) \<times> Repository \<Rightarrow> (error + DictionaryEntry) \<times> Repository"
  where
  "finish_create normalized_word (Inr entry, repo) = (Inr entry, commit repo)"
| "finish_create normalized_word (Inl IntegrityError, repo) =
     (Inl (DictionaryWordAlreadyExistsError normalized_word), rollback repo)"
| "finish_create normalized_word (Inl (ValueError v), repo) = (Inl (ValueError v), rollback repo)"
| "finish_create normalized_word (Inl e, repo) = (Inl e, repo)"

definition add_word ::
  "Repository \<Rightarrow> string \<Rightarrow> string \<Rightarrow> (error + DictionaryEntry) \<times> Repository" where
  "add_word repo w d =
     (case validate_word_input w d of
        Some e \<Rightarrow> (Inl e, repo)
      | None \<Rightarrow>
          (case find_by_word repo (lower (strip w)) of
             Some existing \<Rightarrow> (Inl (DictionaryWordAlreadyExistsError (lower (strip w))), repo)
           | None \<Rightarrow>
               finish_create (lower (strip w)) (create repo (lower (strip w)) (strip d))))"

definition get_word :: "Repository \<Rightarrow> string \<Rightarrow> error + DictionaryEntry" where
  "get_word repo w =
     (if w = [] \<or> strip w = [] then Inl (ValueError WordEmptyOrWhitespace)
      else (case find_by_word repo (lower (strip w)) of
              None \<Rightarrow> Inl (DictionaryWordNotFoundError (lower (strip w)))
            | Some entry \<Rightarrow> Inr entry))"

text \<open>
  The amount, in cents, that \<open>_round_to_decimal_places\<close> computes for a finite float: the
  quantized decimal is that many hundredths, and the float returned is the one nearest to it.
\<close>

definition cents :: "rat \<Rightarrow> int" where
  "cents v = half_up_cents (repr_decimal v)"

lemma extract_loop_spec:
  "extract_loop k ws acc n =
     (acc @ map char_at (extracted_positions k ws), n + length (skipped_positions k ws))"
  by (induction ws arbitrary: k acc n)
     (simp_all add: extracted_positions_def skipped_positions_def long_enough_def
        is_valid_index_def char_at_def)

text \<open>
  Claim C9. For every list of words, the word at index \<open>i\<close> contributes its character at
  position \<open>i\<close> exactly when its length is strictly greater than \<open>i\<close>, and is counted as
  skipped otherwise; the result is the extracted characters in list order, and the two counters
  are the numbers of contributing and of skipped positions. For \<open>["hello", "world", "test"]\<close>
  the result is \<open>"hos"\<close> with 3 extracted and 0 skipped.
\<close>

theorem word_concat_positional:
  "concatenate_words ws =
     \<lparr>result = map char_at (extracted_positions 0 ws), words = ws,
      characters_extracted = length (extracted_positions 0 ws),
      characters_skipped = length (skipped_positions 0 ws)\<rparr>
   \<and> concatenate_words [''hello'', ''world'', ''test''] =
     \<lparr>result = ''hos'', words = [''hello'', ''world'', ''test''],
      characters_extracted = 3, characters_skipped = 0\<rparr>"
proof
  show "concatenate_words ws =
     \<lparr>result = map char_at (extracted_positions 0 ws), words = ws,
      characters_extracted = length (extracted_positions 0 ws),
      characters_skipped = length (skipped_positions 0 ws)\<rparr>"
    by (simp add: concatenate_words_def extract_characters_by_index_def extract_loop_spec)
  show "concatenate_words [''hello'', ''world'', ''test''] =
     \<lparr>result = ''hos'', words = [''hello'', ''world'', ''test''],
      characters_extracted = 3, characters_skipped = 0\<rparr>"
    by (simp add: concatenate_words_def extract_characters_by_index_def is_valid_index_def)
qed


section \<open>Evaluation of the float model\<close>

lemma floor_rat_numeral [simp]:
  "\<lfloor>(numeral a / numeral b :: rat)\<rfloor> = numeral a div numeral b"
  by (metis floor_divide_of_int_eq of_int_numeral)

lemma ceiling_rat_numeral [simp]:
  "\<lceil>(numeral a / numeral b :: rat)\<rceil> = - (- numeral a div numeral b)"
  by (metis ceiling_def floor_divide_of_int_eq minus_divide_left of_int_minus of_int_numeral)

lemmas float_eval =
  float_round_def float_overflow_def round_to_quantum_def quantum_def
  ilog_def ndigits.simps pow_def round_half_even_def round_tie_def
  repr_decimal_def repr_candidate_def grid_unit_def candidates_on_grid_def pick_candidate_def
  shortest_digits.simps half_up_cents_def quantize_cents_def

lemma float_lit_3_2: "float_round (3 / 2) = Finite (3 / 2)"
  by (simp add: float_eval)

lemma float_lit_3_4: "float_round (3 / 4) = Finite (3 / 4)"
  by (simp add: float_eval)

lemma float_lit_9_4: "float_round (9 / 4) = Finite (9 / 4)"
  by (simp add: float_eval)

lemma float_lit_1_10: "float_round (1 / 10) = Finite (3602879701896397 / 36028797018963968)"
  by (simp add: float_eval)

section \<open>The shopping calculator\<close>

subsection \<open>Rounding to cents\<close>

lemma half_up_nonneg:
  fixes d :: rat
  defines "c \<equiv> \<lfloor>d * 100 + 1 / 2\<rfloor>"
  shows "- (1 / 200) < of_int c / 100 - d" and "of_int c / 100 - d \<le> 1 / 200"
proof -
  have "of_int c \<le> d * 100 + 1 / 2" unfolding c_def by (rule of_int_floor_le)
  then show "of_int c / 100 - d \<le> 1 / 200" by linarith
  have "d * 100 + 1 / 2 < of_int c + 1" unfolding c_def by linarith
  then show "- (1 / 200) < of_int c / 100 - d" by linarith
qed

lemma half_up_cents_close: "\<bar>of_int (half_up_cents d) / 100 - d\<bar> \<le> 1 / 200"
proof (cases "0 \<le> d")
  case True
  have "\<bar>of_int \<lfloor>d * 100 + 1 / 2\<rfloor> / 100 - d\<bar> \<le> 1 / 200"
    using half_up_nonneg[of d] by linarith
  then show ?thesis using True by (simp only: half_up_cents_def if_True)
next
  case False
  have "\<bar>of_int \<lfloor>- d * 100 + 1 / 2\<rfloor> / 100 - (- d)\<bar> \<le> 1 / 200"
    using half_up_nonneg[of "- d"] by linarith
  then have "\<bar>of_int (- \<lfloor>- d * 100 + 1 / 2\<rfloor>) / 100 - d\<bar> \<le> 1 / 200"
    unfolding of_int_minus by linarith
  then show ?thesis using False by (simp only: half_up_cents_def if_False)
qed

lemma half_up_cents_tie:
  assumes "\<bar>of_int (half_up_cents d) / 100 - d\<bar> = 1 / 200"
  shows "\<bar>d\<bar> < \<bar>of_int (half_up_cents d) / 100\<bar>"
proof (cases "0 \<le> d")
  case True
  then have "of_int (half_up_cents d) / 100 - d = 1 / 200"
    using half_up_nonneg(1)[of d] assms by (simp add: half_up_cents_def abs_if split: if_splits)
  then show ?thesis using True by linarith
next
  case False
  then have "of_int (half_up_cents d) / 100 - d = - (1 / 200)"
    using half_up_nonneg(1)[of "- d"] assms by (simp add: half_up_cents_def abs_if split: if_splits)
  then show ?thesis using False by linarith
qed

lemma half_up_cents_bound: "\<bar>of_int (half_up_cents d) :: rat\<bar> \<le> 100 * \<bar>d\<bar> + 1 / 2"
  using half_up_cents_close[of d] by linarith

lemma quantize_cents_defined:
  assumes "\<bar>d\<bar> < 10 ^ 25"
  shows "quantize_cents d = Inr (of_int (half_up_cents d) / 100)"
proof -
  have "\<bar>of_int (half_up_cents d) :: rat\<bar> < 10 ^ 28"
    using half_up_cents_bound[of d] assms by simp
  then have "\<bar>half_up_cents d\<bar> < 10 ^ 28"
    by (metis of_int_abs of_int_less_iff of_int_numeral of_int_power)
  then show ?thesis by (simp add: quantize_cents_def)
qed


text \<open>
  Claim C2. \<open>_round_to_decimal_places\<close> rounds to two fractional digits, half-up, on the
  decimal that the textual form of the input denotes and not on the binary value: whenever it
  returns, the result is the float nearest to a whole number of hundredths that lies within
  half a cent of \<open>Decimal(str(value))\<close>, and on a tie it is the one farther from zero; it
  returns for every finite input below \<open>10 ^ 25\<close> in magnitude. In particular 10.555 gives
  10.56, 10.554 gives 10.55, 0.005 gives 0.01 and 2.675 gives 2.68, although the binary value
  of 2.675 lies below 2.675 and rounds to 2.67 when taken exactly.
\<close>

theorem round_to_decimal_places_half_up:
  "(round_to_decimal_places (Finite v) = Inr y \<longrightarrow>
      y = float_round (of_int (half_up_cents (repr_decimal v)) / 100)
      \<and> \<bar>of_int (half_up_cents (repr_decimal v)) / 100 - repr_decimal v\<bar> \<le> 1 / 200
      \<and> (\<bar>of_int (half_up_cents (repr_decimal v)) / 100 - repr_decimal v\<bar> = 1 / 200 \<longrightarrow>
           \<bar>repr_decimal v\<bar> < \<bar>of_int (half_up_cents (repr_decimal v)) / 100\<bar>))
   \<and> (\<bar>repr_decimal v\<bar> < 10 ^ 25 \<longrightarrow>
        round_to_decimal_places (Finite v) =
          Inr (float_round (of_int (half_up_cents (repr_decimal v)) / 100)))
   \<and> round_to_decimal_places (float_round (10555 / 1000)) = Inr (float_round (1056 / 100))
   \<and> round_to_decimal_places (float_round (10554 / 1000)) = Inr (float_round (1055 / 100))
   \<and> round_to_decimal_places (float_round (5 / 1000)) = Inr (float_round (1 / 100))
   \<and> round_to_decimal_places (float_round (2675 / 1000)) = Inr (float_round (268 / 100))
   \<and> float_round (2675 / 1000) = Finite (3011782250804019 / 1125899906842624)
   \<and> (3011782250804019 / 1125899906842624 :: rat) < 2675 / 1000
   \<and> quantize_cents (3011782250804019 / 1125899906842624) = Inr (267 / 100)"
proof (intro conjI impI)
  assume r: "round_to_decimal_places (Finite v) = Inr y"
  then show "y = float_round (of_int (half_up_cents (repr_decimal v)) / 100)"
    by (auto simp: quantize_cents_def split: if_splits)
  show "\<bar>of_int (half_up_cents (repr_decimal v)) / 100 - repr_decimal v\<bar> \<le> 1 / 200"
    by (rule half_up_cents_close)
next
  assume "\<bar>of_int (half_up_cents (repr_decimal v)) / 100 - repr_decimal v\<bar> = 1 / 200"
  then show "\<bar>repr_decimal v\<bar> < \<bar>of_int (half_up_cents (repr_decimal v)) / 100\<bar>"
    by (rule half_up_cents_tie)
next
  assume "\<bar>repr_decimal v\<bar> < 10 ^ 25"
  then show "round_to_decimal_places (Finite v) =
      Inr (float_round (of_int (half_up_cents (repr_decimal v)) / 100))"
    by (simp add: quantize_cents_defined)
next
  show "round_to_decimal_places (float_round (10555 / 1000)) = Inr (float_round (1056 / 100))"
    by (simp add: float_eval)
  show "round_to_decimal_places (float_round (10554 / 1000)) = Inr (float_round (1055 / 100))"
    by (simp add: float_eval)
  show "round_to_decimal_places (float_round (5 / 1000)) = Inr (float_round (1 / 100))"
    by (simp add: float_eval)
  show "round_to_decimal_places (float_round (2675 / 1000)) = Inr (float_round (268 / 100))"
    by (simp add: float_eval)
  show "float_round (2675 / 1000) = Finite (3011782250804019 / 1125899906842624)"
    by (simp add: float_eval)
  show "(3011782250804019 / 1125899906842624 :: rat) < 2675 / 1000"
    by simp
  show "quantize_cents (3011782250804019 / 1125899906842624) = Inr (267 / 100)"
    by (simp add: float_eval)
qed

theorem round_to_decimal_places_half_up_witness:
  "round_to_decimal_places (Finite (1 / 8)) = Inr (float_round (13 / 100))
   \<and> float_round (13 / 100) = float_round (of_int (half_up_cents (repr_decimal (1 / 8))) / 100)
   \<and> \<bar>of_int (half_up_cents (repr_decimal (1 / 8))) / 100 - repr_decimal (1 / 8)\<bar> = 1 / 200
   \<and> \<bar>repr_decimal (1 / 8)\<bar> < \<bar>of_int (half_up_cents (repr_decimal (1 / 8))) / 100\<bar>
   \<and> \<bar>repr_decimal (1 / 8)\<bar> < 10 ^ 25"
proof -
  have r: "round_to_decimal_places (Finite (1 / 8)) = Inr (float_round (13 / 100))"
    by (simp add: float_eval)
  have t: "\<bar>of_int (half_up_cents (repr_decimal (1 / 8))) / 100 - repr_decimal (1 / 8)\<bar> = 1 / 200"
    by (simp add: float_eval)
  have b: "\<bar>repr_decimal (1 / 8)\<bar> < 10 ^ 25"
    by (simp add: float_eval)
  from round_to_decimal_places_half_up [of "1 / 8" "float_round (13 / 100)"] r t b
  show ?thesis by blast
qed

subsection \<open>The end-to-end example\<close>

text \<open>
  Claim C1. With costs \<open>{"apple": 1.50, "banana": 0.75}\<close>, items \<open>["apple", "banana"]\<close> and
  tax rate 0.1, \<open>calculate_total\<close> returns subtotal 2.25, tax amount 0.23, total 2.48, both
  items found, none missing, and a count of 2. The raw tax is the float 0.225 (2.25 times 0.1)
  and the raw total the float 2.475 (2.25 plus the raw tax); each is then rounded half-up to two
  places, 0.225 to 0.23 and 2.475 to 2.48.
\<close>

theorem calculate_total_example:
  "calculate_total
     \<lparr>costs = [(''apple'', float_round (150 / 100)), (''banana'', float_round (75 / 100))],
      items = [''apple'', ''banana''], tax = float_round (1 / 10)\<rparr>
   = Inr \<lparr>subtotal = float_round (225 / 100), tax_amount = float_round (23 / 100),
          total_amount = float_round (248 / 100),
          items_found = [''apple'', ''banana''], items_not_found = [],
          items_count = 2\<rparr>
   \<and> calculate_tax_and_total (float_round (225 / 100)) (float_round (1 / 10))
       = (float_round (225 / 1000), float_round (2475 / 1000))
   \<and> round_to_decimal_places (float_round (225 / 1000)) = Inr (float_round (23 / 100))
   \<and> round_to_decimal_places (float_round (2475 / 1000)) = Inr (float_round (248 / 100))"
proof (intro conjI)
  show "calculate_total
     \<lparr>costs = [(''apple'', float_round (150 / 100)), (''banana'', float_round (75 / 100))],
      items = [''apple'', ''banana''], tax = float_round (1 / 10)\<rparr>
   = Inr \<lparr>subtotal = float_round (225 / 100), tax_amount = float_round (23 / 100),
          total_amount = float_round (248 / 100),
          items_found = [''apple'', ''banana''], items_not_found = [],
          items_count = 2\<rparr>"
    by (simp add: calculate_total_def calculate_subtotal_def calculate_tax_and_total_def
          round_all_def strip_def is_space_def float_eval)
  show "calculate_tax_and_total (float_round (225 / 100)) (float_round (1 / 10))
       = (float_round (225 / 1000), float_round (2475 / 1000))"
    by (simp add: calculate_tax_and_total_def float_eval)
  show "round_to_decimal_places (float_round (225 / 1000)) = Inr (float_round (23 / 100))"
    by (simp add: float_eval)
  show "round_to_decimal_places (float_round (2475 / 1000)) = Inr (float_round (248 / 100))"
    by (simp add: float_eval)
qed

subsection \<open>Found and missing items\<close>

lemma strip_Nil [simp]: "strip [] = []"
  by (simp add: strip_def)

lemma strip_guard [simp]: "(if item \<noteq> [] then strip item else []) = strip item"
  by (cases item) simp_all

lemma subtotal_loop_lists:
  "snd (subtotal_loop cs its sub found not_found) =
     (found @ filter (priced cs) (kept_items its),
      not_found @ filter (\<lambda>i. \<not> priced cs i) (kept_items its))"
proof (induction its arbitrary: sub found not_found)
  case Nil
  show ?case by (simp add: kept_items_def)
next
  case (Cons item rest)
  show ?case
  proof (cases "strip item = []")
    case True
    then show ?thesis using Cons.IH by (simp add: kept_items_def)
  next
    case False
    then show ?thesis using Cons.IH
      by (cases "map_of cs (strip item)") (simp_all add: kept_items_def priced_def)
  qed
qed

lemma round_all_lists:
  "round_all sub tax_amt tot found not_found = Inr response \<Longrightarrow>
     items_found response = found \<and> items_not_found response = not_found
     \<and> items_count response = length found + length not_found"
  by (auto simp: round_all_def split: sum.splits)

lemma mset_partition_filter: "mset (filter P xs @ filter (\<lambda>x. \<not> P x) xs) = mset xs"
  by (induction xs) simp_all

text \<open>
  Claim C4. Whenever \<open>calculate_total\<close> returns, \<open>items_found\<close> and \<open>items_not_found\<close> are
  the priced and the unpriced ones among the trimmed, non-empty input items, each in input
  order; together they are, as a multiset, exactly those items; blank items appear in neither
  list and are not counted; and \<open>items_count\<close> is the sum of the two lengths. The same
  partition holds for the lists \<open>_calculate_subtotal\<close> returns, which it always does.
\<close>

theorem calculate_total_partition:
  "snd (calculate_subtotal its cs) =
     (filter (priced cs) (kept_items its), filter (\<lambda>i. \<not> priced cs i) (kept_items its))
   \<and> (calculate_total request = Inr response \<longrightarrow>
        items_found response = filter (priced (costs request)) (kept_items (items request))
        \<and> items_not_found response =
            filter (\<lambda>i. \<not> priced (costs request) i) (kept_items (items request))
        \<and> mset (items_found response @ items_not_found response)
            = mset (kept_items (items request))
        \<and> items_count response
            = length (items_found response) + length (items_not_found response)
        \<and> items_count response = length (kept_items (items request)))"
proof (intro conjI impI)
  show "snd (calculate_subtotal its cs) =
     (filter (priced cs) (kept_items its), filter (\<lambda>i. \<not> priced cs i) (kept_items its))"
    by (simp add: calculate_subtotal_def subtotal_loop_lists)
next
  assume ok: "calculate_total request = Inr response"
  obtain sub found not_found
    where s: "calculate_subtotal (items request) (costs request) = (sub, found, not_found)"
    by (cases "calculate_subtotal (items request) (costs request)") auto
  have lists: "found = filter (priced (costs request)) (kept_items (items request))"
    "not_found = filter (\<lambda>i. \<not> priced (costs request) i) (kept_items (items request))"
    using s subtotal_loop_lists[of "costs request" "items request" "Finite 0" "[]" "[]"]
    by (simp_all add: calculate_subtotal_def)
  have resp: "items_found response = found" "items_not_found response = not_found"
    "items_count response = length found + length not_found"
    using ok s round_all_lists[of sub _ _ found not_found response]
    by (auto simp: calculate_total_def split: prod.splits)
  show "items_found response = filter (priced (costs request)) (kept_items (items request))"
    using resp lists by simp
  show "items_not_found response =
      filter (\<lambda>i. \<not> priced (costs request) i) (kept_items (items request))"
    using resp lists by simp
  show m: "mset (items_found response @ items_not_found response)
      = mset (kept_items (items request))"
    unfolding resp lists by (rule mset_partition_filter)
  show "items_count response
      = length (items_found response) + length (items_not_found response)"
    using resp by simp
  show "items_count response = length (kept_items (items request))"
    using resp m by (metis length_append size_mset)
qed

theorem calculate_total_partition_witness:
  "calculate_total
     \<lparr>costs = [(''apple'', float_round (150 / 100))],
      items = ['' apple '', '''', ''  '', ''missing1'', ''apple'', ''missing2''],
      tax = float_round (1 / 2)\<rparr>
   = Inr \<lparr>subtotal = float_round 3, tax_amount = float_round (150 / 100),
          total_amount = float_round (450 / 100),
          items_found = [''apple'', ''apple''], items_not_found = [''missing1'', ''missing2''],
          items_count = 4\<rparr>
   \<and> kept_items ['' apple '', '''', ''  '', ''missing1'', ''apple'', ''missing2'']
       = [''apple'', ''missing1'', ''apple'', ''missing2'']
   \<and> mset ([''apple'', ''apple''] @ [''missing1'', ''missing2''])
       = mset (kept_items ['' apple '', '''', ''  '', ''missing1'', ''apple'', ''missing2''])"
proof -
  have c: "calculate_total
     \<lparr>costs = [(''apple'', float_round (150 / 100))],
      items = ['' apple '', '''', ''  '', ''missing1'', ''apple'', ''missing2''],
      tax = float_round (1 / 2)\<rparr>
   = Inr \<lparr>subtotal = float_round 3, tax_amount = float_round (150 / 100),
          total_amount = float_round (450 / 100),
          items_found = [''apple'', ''apple''], items_not_found = [''missing1'', ''missing2''],
          items_count = 4\<rparr>"
    by (simp add: calculate_total_def calculate_subtotal_def calculate_tax_and_total_def
          round_all_def strip_def is_space_def float_eval)
  have k: "kept_items ['' apple '', '''', ''  '', ''missing1'', ''apple'', ''missing2'']
       = [''apple'', ''missing1'', ''apple'', ''missing2'']"
    by (simp add: kept_items_def strip_def is_space_def)
  from calculate_total_partition [THEN conjunct2, rule_format, OF c] c k
  show ?thesis by simp
qed


subsection \<open>Rounding drift\<close>

lemma pow_powi: "pow b e = of_nat b powi e"
  by (simp add: pow_def power_int_def power_inverse inverse_eq_divide power_one_over)

lemma pow_pos: "0 < pow 2 e"
  by (simp add: pow_def)

lemma pow_mono: "i \<le> j \<Longrightarrow> pow 2 i \<le> pow 2 j"
  unfolding pow_powi by (rule power_int_increasing) simp_all

lemma pow_diff: "pow 2 (e - 52) = pow 2 e / 2 ^ 52"
  unfolding pow_powi by (simp add: power_int_diff)

lemma ndigits_lower: "0 < n \<Longrightarrow> 2 ^ (ndigits 2 n - 1) \<le> n"
proof (induction n rule: less_induct)
  case (less n)
  show ?case
  proof (cases "n div 2 = 0")
    case True
    then have "ndigits 2 n = 1"
      using less.prems by (simp add: ndigits.simps[of 2 n] ndigits.simps[of 2 0])
    then show ?thesis using less.prems by simp
  next
    case False
    then have pos: "0 < n div 2" by simp
    have lt: "n div 2 < n" using less.prems by simp
    have ih: "2 ^ (ndigits 2 (n div 2) - 1) \<le> n div 2"
      using less.IH[OF lt pos] .
    have nd: "ndigits 2 n = Suc (ndigits 2 (n div 2))"
      using less.prems by (simp add: ndigits.simps[of 2 n])
    have ge1: "1 \<le> ndigits 2 (n div 2)"
      using pos by (simp add: ndigits.simps[of 2 "n div 2"])
    have "(2::nat) ^ (ndigits 2 n - 1) = 2 * 2 ^ (ndigits 2 (n div 2) - 1)"
      using nd ge1 by (cases "ndigits 2 (n div 2)") simp_all
    also have "\<dots> \<le> 2 * (n div 2)" using ih by simp
    also have "\<dots> \<le> n" by simp
    finally show ?thesis .
  qed
qed

lemma ilog_ge_one: 
  assumes "1 \<le> q"
  shows "0 \<le> ilog 2 q" and "pow 2 (ilog 2 q) \<le> q"
proof -
  let ?n = "nat \<lfloor>q\<rfloor>"
  have n: "0 < ?n" using assms by simp
  have d: "1 \<le> ndigits 2 ?n" using n by (simp add: ndigits.simps[of 2 ?n])
  have e: "ilog 2 q = int (ndigits 2 ?n) - 1" using assms by (simp add: ilog_def)
  show "0 \<le> ilog 2 q" using e d by simp
  have "nat (ilog 2 q) = ndigits 2 ?n - 1" using e d by simp
  then have "pow 2 (ilog 2 q) = 2 ^ (ndigits 2 ?n - 1)"
    using e d by (simp add: pow_def)
  also have "\<dots> = of_nat (2 ^ (ndigits 2 ?n - 1))" by simp
  also have "\<dots> \<le> of_nat ?n" using ndigits_lower[OF n] by (simp only: of_nat_le_iff)
  also have "\<dots> \<le> q" using assms by (simp add: of_nat_floor)
  finally show "pow 2 (ilog 2 q) \<le> q" .
qed

lemma ilog_lt_one: "q < 1 \<Longrightarrow> ilog 2 q \<le> 0"
  by (simp add: ilog_def)

lemma round_half_even_close: "\<bar>of_int (round_half_even z) - z\<bar> \<le> 1 / 2"
proof -
  have "of_int \<lfloor>z\<rfloor> \<le> z" "z < of_int \<lfloor>z\<rfloor> + 1" by linarith+
  then show ?thesis
    by (auto simp: round_half_even_def round_tie_def abs_le_iff)
qed

lemma round_half_even_nonneg: "0 \<le> z \<Longrightarrow> 0 \<le> round_half_even z"
  by (auto simp: round_half_even_def round_tie_def)


lemma quantum_pos: "0 < quantum a"
  by (simp add: quantum_def pow_pos)

lemma round_to_quantum_close:
  assumes "0 < u"
  shows "\<bar>round_to_quantum a u - a\<bar> \<le> u / 2"
proof -
  let ?k = "of_int (round_half_even (a / u)) :: rat"
  have eq: "?k * u - a = (?k - a / u) * u"
    using assms by (simp add: field_simps)
  have "\<bar>?k * u - a\<bar> = \<bar>?k - a / u\<bar> * u"
    unfolding eq using assms by (simp add: abs_mult)
  also have "\<dots> \<le> 1 / 2 * u"
    using round_half_even_close[of "a / u"] assms by (intro mult_right_mono) simp_all
  finally show ?thesis by (simp add: round_to_quantum_def)
qed

lemma round_to_quantum_nonneg: "0 < u \<Longrightarrow> 0 \<le> a \<Longrightarrow> 0 \<le> round_to_quantum a u"
  using round_half_even_nonneg[of "a / u"] by (simp add: round_to_quantum_def)

text \<open>The rounding error is at most half the spacing.\<close>

lemma float_round_error:
  assumes "float_round q = Finite x"
  shows "\<bar>x - q\<bar> \<le> quantum \<bar>q\<bar> / 2"
proof (cases "q = 0")
  case True
  then show ?thesis using assms quantum_pos[of 0] by (simp add: float_round_def)
next
  case False
  let ?r = "round_to_quantum \<bar>q\<bar> (quantum \<bar>q\<bar>)"
  have c: "\<bar>?r - \<bar>q\<bar>\<bar> \<le> quantum \<bar>q\<bar> / 2"
    by (rule round_to_quantum_close[OF quantum_pos])
  have x: "x = (if q < 0 then - ?r else ?r)"
    using assms False by (auto simp: float_round_def float_overflow_def split: if_splits)
  show ?thesis
  proof (cases "q < 0")
    case True
    then have "\<bar>x - q\<bar> = \<bar>?r - \<bar>q\<bar>\<bar>" using x by (simp add: abs_if)
    then show ?thesis using c by simp
  next
    case False
    then have "\<bar>x - q\<bar> = \<bar>?r - \<bar>q\<bar>\<bar>" using x by (simp add: abs_if)
    then show ?thesis using c by simp
  qed
qed

lemma float_round_nonneg:
  assumes "float_round q = Finite x" and "0 \<le> q"
  shows "0 \<le> x"
proof (cases "q = 0")
  case True
  then show ?thesis using assms by (simp add: float_round_def)
next
  case False
  have "0 \<le> round_to_quantum \<bar>q\<bar> (quantum \<bar>q\<bar>)"
    by (rule round_to_quantum_nonneg[OF quantum_pos]) simp
  then show ?thesis
    using assms False by (auto simp: float_round_def float_overflow_def split: if_splits)
qed

text \<open>Below \<open>2 ^ 44\<close> the spacing is at most \<open>2 ^ -9\<close>.\<close>

lemma quantum_small:
  assumes "\<bar>q\<bar> < 2 ^ 44"
  shows "quantum \<bar>q\<bar> \<le> 1 / 512"
proof -
  have e: "ilog 2 \<bar>q\<bar> \<le> 43"
  proof (cases "1 \<le> \<bar>q\<bar>")
    case True
    have "pow 2 (ilog 2 \<bar>q\<bar>) < 2 ^ 44"
      using ilog_ge_one(2)[OF True] assms by simp
    moreover have "pow 2 (ilog 2 \<bar>q\<bar>) = 2 ^ nat (ilog 2 \<bar>q\<bar>)"
      using ilog_ge_one(1)[OF True] by (simp add: pow_def)
    ultimately have "(2::rat) ^ nat (ilog 2 \<bar>q\<bar>) < 2 ^ 44" by simp
    then have "nat (ilog 2 \<bar>q\<bar>) < 44"
      by (rule power_less_imp_less_exp[rotated]) simp
    then show ?thesis by simp
  next
    case False
    then show ?thesis using ilog_lt_one[of "\<bar>q\<bar>"] by simp
  qed
  have "quantum \<bar>q\<bar> \<le> pow 2 (- 9)"
    unfolding quantum_def by (rule pow_mono) (use e in simp)
  then show ?thesis by (simp add: pow_def)
qed

lemma float_round_error_small:
  assumes "float_round q = Finite x" and "\<bar>q\<bar> < 2 ^ 44"
  shows "\<bar>x - q\<bar> \<le> 1 / 1024"
  using float_round_error[OF assms(1)] quantum_small[OF assms(2)] by simp

text \<open>From one on, the spacing is at most \<open>2 ^ -52\<close> of the value.\<close>

lemma quantum_relative:
  assumes "1 \<le> \<bar>q\<bar>"
  shows "quantum \<bar>q\<bar> \<le> \<bar>q\<bar> / 2 ^ 52"
proof -
  have "max (ilog 2 \<bar>q\<bar> - 52) (- 1074) = ilog 2 \<bar>q\<bar> - 52"
    using ilog_ge_one(1)[OF assms] by simp
  then have "quantum \<bar>q\<bar> = pow 2 (ilog 2 \<bar>q\<bar>) / 2 ^ 52"
    by (simp add: quantum_def pow_diff)
  then show ?thesis
    using ilog_ge_one(2)[OF assms] by (simp add: divide_right_mono)
qed

text \<open>No overflow below \<open>2 ^ 44\<close>.\<close>

lemma float_round_finite:
  assumes "\<bar>q\<bar> < 2 ^ 44"
  shows "\<exists>x. float_round q = Finite x"
proof (cases "q = 0")
  case True
  then show ?thesis by (simp add: float_round_def)
next
  case False
  let ?r = "round_to_quantum \<bar>q\<bar> (quantum \<bar>q\<bar>)"
  have "\<bar>?r - \<bar>q\<bar>\<bar> \<le> quantum \<bar>q\<bar> / 2"
    by (rule round_to_quantum_close[OF quantum_pos])
  then have "?r \<le> \<bar>q\<bar> + 1 / 1024"
    using quantum_small[OF assms] by linarith
  then have "?r < 2 ^ 44 + 1" using assms by linarith
  also have "\<dots> < (2::rat) ^ 1024" by simp
  finally have "\<not> pow 2 1024 \<le> ?r" by (simp add: pow_def)
  then show ?thesis using False by (simp add: float_round_def float_overflow_def)
qed


text \<open>The decimal of the textual form reads back as the float, or is the float itself.\<close>

lemma pick_candidate_Some: "pick_candidate a c1 c2 = Some c \<Longrightarrow> float_round c = Finite a"
  by (auto simp: pick_candidate_def split: if_splits)

lemma repr_candidate_Some: "repr_candidate a n = Some c \<Longrightarrow> float_round c = Finite a"
  by (auto simp: repr_candidate_def candidates_on_grid_def dest: pick_candidate_Some
        split: if_splits)

lemma shortest_digits_roundtrip:
  "shortest_digits a n = a \<or> float_round (shortest_digits a n) = Finite a"
proof (induction a n rule: shortest_digits.induct)
  case (1 a n)
  show ?case
  proof (cases "17 < n")
    case True
    then show ?thesis by (simp add: shortest_digits.simps[of a n])
  next
    case False
    show ?thesis
    proof (cases "repr_candidate a n")
      case None
      then show ?thesis
        using False "1.IH" by (simp add: shortest_digits.simps[of a n])
    next
      case (Some c)
      then show ?thesis
        using False repr_candidate_Some[OF Some] by (simp add: shortest_digits.simps[of a n])
    qed
  qed
qed

lemma repr_decimal_roundtrip:
  "0 \<le> v \<Longrightarrow> repr_decimal v = v \<or> float_round (repr_decimal v) = Finite v"
  using shortest_digits_roundtrip[of v 1] by (auto simp: repr_decimal_def)

lemma repr_decimal_error:
  assumes "0 \<le> v" and "v < 2 ^ 44 - 1 / 512"
  shows "\<bar>repr_decimal v - v\<bar> \<le> 1 / 1024"
proof (cases "repr_decimal v = v")
  case True
  then show ?thesis by simp
next
  case False
  let ?q = "repr_decimal v"
  have rt: "float_round ?q = Finite v"
    using repr_decimal_roundtrip[OF assms(1)] False by simp
  have small: "\<bar>?q\<bar> < 2 ^ 44"
  proof (rule ccontr)
    assume "\<not> \<bar>?q\<bar> < 2 ^ 44"
    then have big: "2 ^ 44 \<le> \<bar>?q\<bar>" by simp
    then have one: "1 \<le> \<bar>?q\<bar>" by simp
    have "\<bar>v - ?q\<bar> \<le> \<bar>?q\<bar> / 2 ^ 52 / 2"
      using float_round_error[OF rt] quantum_relative[OF one] by simp
    then have "\<bar>?q\<bar> - \<bar>?q\<bar> / 2 ^ 53 \<le> \<bar>v\<bar>" by (simp add: abs_if split: if_splits)
    moreover have "2 ^ 44 - 1 / 512 \<le> \<bar>?q\<bar> - \<bar>?q\<bar> / 2 ^ 53"
      using big by simp
    ultimately show False using assms by simp
  qed
  show ?thesis
    using float_round_error_small[OF rt small] by (simp add: abs_minus_commute)
qed

lemma round_to_decimal_places_cents:
  assumes "0 \<le> v" and "v < 2 ^ 44 - 1 / 512"
  shows "round_to_decimal_places (Finite v) = Inr (float_round (of_int (cents v) / 100))"
    and "\<bar>of_int (cents v) / 100 - v\<bar> \<le> 1 / 200 + 1 / 1024"
proof -
  have e: "\<bar>repr_decimal v - v\<bar> \<le> 1 / 1024"
    by (rule repr_decimal_error[OF assms])
  then have "\<bar>repr_decimal v\<bar> < 10 ^ 25"
    using assms by (simp add: abs_if split: if_splits)
  then show "round_to_decimal_places (Finite v) = Inr (float_round (of_int (cents v) / 100))"
    by (simp add: quantize_cents_defined cents_def)
  show "\<bar>of_int (cents v) / 100 - v\<bar> \<le> 1 / 200 + 1 / 1024"
    using half_up_cents_close[of "repr_decimal v"] e unfolding cents_def by linarith
qed

text \<open>Tax and total of a subtotal of at most eight trillion.\<close>

lemma tax_and_total_bounded:
  assumes a: "0 \<le> a" "a \<le> 8 * 10 ^ 12" and r: "0 \<le> \<rho>" "\<rho> \<le> 1"
  shows "\<exists>b c. calculate_tax_and_total (Finite a) (Finite \<rho>) = (Finite b, Finite c)
           \<and> 0 \<le> b \<and> b < 2 ^ 44 - 1 / 512 \<and> 0 \<le> c \<and> c < 2 ^ 44 - 1 / 512
           \<and> \<bar>c - (a + b)\<bar> \<le> 1 / 1024"
proof -
  have p: "0 \<le> a * \<rho>" "a * \<rho> \<le> a"
    using a r by (simp_all add: mult_left_le)
  then have ps: "\<bar>a * \<rho>\<bar> < 2 ^ 44" using a by simp
  obtain b where b: "float_round (a * \<rho>) = Finite b"
    using float_round_finite[OF ps] by blast
  have b0: "0 \<le> b" using float_round_nonneg[OF b p(1)] .
  have be: "\<bar>b - a * \<rho>\<bar> \<le> 1 / 1024" using float_round_error_small[OF b ps] .
  then have bu: "b \<le> a + 1 / 1024" using p by linarith
  have s: "\<bar>a + b\<bar> < 2 ^ 44" using a b0 bu by simp
  obtain c where c: "float_round (a + b) = Finite c"
    using float_round_finite[OF s] by blast
  have c0: "0 \<le> c" using float_round_nonneg[OF c] a b0 by simp
  have ce: "\<bar>c - (a + b)\<bar> \<le> 1 / 1024" using float_round_error_small[OF c s] .
  have p44: "(2::rat) ^ 44 = 17592186044416" by simp
  have a': "a \<le> 8000000000000" using a by simp
  have "c \<le> a + b + 1 / 1024" using ce by linarith
  then have cu: "c < 2 ^ 44 - 1 / 512" using a' bu unfolding p44 by linarith
  have bu': "b < 2 ^ 44 - 1 / 512" using a' bu unfolding p44 by linarith
  have "calculate_tax_and_total (Finite a) (Finite \<rho>) = (Finite b, Finite c)"
    by (simp add: calculate_tax_and_total_def b c)
  then show ?thesis using b0 bu' c0 cu ce by blast
qed

lemma cents_drift:
  assumes a: "0 \<le> a" "a < 2 ^ 44 - 1 / 512" and b: "0 \<le> b" "b < 2 ^ 44 - 1 / 512"
    and c: "0 \<le> c" "c < 2 ^ 44 - 1 / 512" and s: "\<bar>c - (a + b)\<bar> \<le> 1 / 1024"
  shows "\<bar>cents c - (cents a + cents b)\<bar> \<le> 1"
proof -
  let ?A = "of_int (cents a) / 100 :: rat"
  let ?B = "of_int (cents b) / 100 :: rat"
  let ?C = "of_int (cents c) / 100 :: rat"
  have "\<bar>?A - a\<bar> \<le> 1 / 200 + 1 / 1024" "\<bar>?B - b\<bar> \<le> 1 / 200 + 1 / 1024"
    "\<bar>?C - c\<bar> \<le> 1 / 200 + 1 / 1024"
    using round_to_decimal_places_cents(2) a b c by simp_all
  then have "\<bar>?C - (?A + ?B)\<bar> < 2 / 100" using s by linarith
  then have "\<bar>of_int (cents c - (cents a + cents b)) :: rat\<bar> < 2"
    by (simp add: abs_if field_simps split: if_splits)
  then have "\<bar>cents c - (cents a + cents b)\<bar> < 2"
    by (metis of_int_abs of_int_less_iff of_int_numeral)
  then show ?thesis by simp
qed

text \<open>
  Claim C3, as amended. The raw total is the floating-point sum of the raw subtotal and the raw
  tax amount, and each of the three is rounded on its own. Whenever the raw subtotal is a finite
  float between 0 and 8 000 000 000 000 and the tax rate is a float between 0 and 1, the call
  returns, each returned field is the float nearest to a whole number of cents, and the cents
  of the total differ from the sum of the cents of the subtotal and of the tax amount by at
  most one.
\<close>

theorem rounding_drift_at_most_one_cent:
  "snd (calculate_tax_and_total sub rate) = fadd sub (fst (calculate_tax_and_total sub rate))
   \<and> (calculate_subtotal (items request) (costs request) = (Finite a, found, not_found)
        \<and> 0 \<le> a \<and> a \<le> 8 * 10 ^ 12 \<and> tax request = Finite r \<and> 0 \<le> r \<and> r \<le> 1 \<longrightarrow>
        (\<exists>b c. calculate_tax_and_total (Finite a) (Finite r) = (Finite b, Finite c)
           \<and> calculate_total request =
               Inr \<lparr>subtotal = float_round (of_int (cents a) / 100),
                    tax_amount = float_round (of_int (cents b) / 100),
                    total_amount = float_round (of_int (cents c) / 100),
                    items_found = found, items_not_found = not_found,
                    items_count = length found + length not_found\<rparr>
           \<and> \<bar>cents c - (cents a + cents b)\<bar> \<le> 1))"
proof (intro conjI impI)
  show "snd (calculate_tax_and_total sub rate)
      = fadd sub (fst (calculate_tax_and_total sub rate))"
    by (simp add: calculate_tax_and_total_def)
next
  assume h: "calculate_subtotal (items request) (costs request) = (Finite a, found, not_found)
      \<and> 0 \<le> a \<and> a \<le> 8 * 10 ^ 12 \<and> tax request = Finite r \<and> 0 \<le> r \<and> r \<le> 1"
  then have a: "0 \<le> a" "a \<le> 8 * 10 ^ 12" and r: "0 \<le> r" "r \<le> 1" by simp_all
  obtain b c where bc: "calculate_tax_and_total (Finite a) (Finite r) = (Finite b, Finite c)"
    and b: "0 \<le> b" "b < 2 ^ 44 - 1 / 512" and c: "0 \<le> c" "c < 2 ^ 44 - 1 / 512"
    and s: "\<bar>c - (a + b)\<bar> \<le> 1 / 1024"
    using tax_and_total_bounded[OF a r] by blast
  have a': "a < 2 ^ 44 - 1 / 512" using a by simp
  have ra: "round_to_decimal_places (Finite a) = Inr (float_round (of_int (cents a) / 100))"
    by (rule round_to_decimal_places_cents(1)[OF a(1) a'])
  have rb: "round_to_decimal_places (Finite b) = Inr (float_round (of_int (cents b) / 100))"
    by (rule round_to_decimal_places_cents(1)[OF b])
  have rc: "round_to_decimal_places (Finite c) = Inr (float_round (of_int (cents c) / 100))"
    by (rule round_to_decimal_places_cents(1)[OF c])
  have t: "calculate_total request =
      Inr \<lparr>subtotal = float_round (of_int (cents a) / 100),
           tax_amount = float_round (of_int (cents b) / 100),
           total_amount = float_round (of_int (cents c) / 100),
           items_found = found, items_not_found = not_found,
           items_count = length found + length not_found\<rparr>"
    using h bc by (simp add: calculate_total_def round_all_def ra rb rc
        del: round_to_decimal_places.simps)
  have d: "\<bar>cents c - (cents a + cents b)\<bar> \<le> 1"
    by (rule cents_drift[OF a(1) a' b c s])
  show "\<exists>b c. calculate_tax_and_total (Finite a) (Finite r) = (Finite b, Finite c)
           \<and> calculate_total request =
               Inr \<lparr>subtotal = float_round (of_int (cents a) / 100),
                    tax_amount = float_round (of_int (cents b) / 100),
                    total_amount = float_round (of_int (cents c) / 100),
                    items_found = found, items_not_found = not_found,
                    items_count = length found + length not_found\<rparr>
           \<and> \<bar>cents c - (cents a + cents b)\<bar> \<le> 1"
    using bc t d by blast
qed

theorem rounding_drift_at_most_one_cent_witness:
  "calculate_subtotal [''apple'', ''banana'']
       [(''apple'', float_round (150 / 100)), (''banana'', float_round (75 / 100))]
     = (Finite (9 / 4), [''apple'', ''banana''], [])
   \<and> (0 :: rat) \<le> 9 / 4 \<and> (9 / 4 :: rat) \<le> 8 * 10 ^ 12
   \<and> float_round (1 / 10) = Finite (3602879701896397 / 36028797018963968)
   \<and> (0 :: rat) \<le> 3602879701896397 / 36028797018963968
   \<and> (3602879701896397 / 36028797018963968 :: rat) \<le> 1
   \<and> (\<exists>b c. calculate_tax_and_total (Finite (9 / 4))
                (Finite (3602879701896397 / 36028797018963968)) = (Finite b, Finite c)
          \<and> calculate_total
               \<lparr>costs = [(''apple'', float_round (150 / 100)),
                         (''banana'', float_round (75 / 100))],
                items = [''apple'', ''banana''], tax = float_round (1 / 10)\<rparr>
             = Inr \<lparr>subtotal = float_round (of_int (cents (9 / 4)) / 100),
                    tax_amount = float_round (of_int (cents b) / 100),
                    total_amount = float_round (of_int (cents c) / 100),
                    items_found = [''apple'', ''banana''], items_not_found = [],
                    items_count = 2\<rparr>
          \<and> \<bar>cents c - (cents (9 / 4) + cents b)\<bar> \<le> 1)"
proof -
  have s: "calculate_subtotal [''apple'', ''banana'']
       [(''apple'', float_round (150 / 100)), (''banana'', float_round (75 / 100))]
     = (Finite (9 / 4), [''apple'', ''banana''], [])"
    by (simp add: calculate_subtotal_def strip_def is_space_def float_eval)
  have t: "float_round (1 / 10) = Finite (3602879701896397 / 36028797018963968)"
    by (rule float_lit_1_10)
  from rounding_drift_at_most_one_cent [THEN conjunct2,
      of "\<lparr>costs = [(''apple'', float_round (150 / 100)),
                      (''banana'', float_round (75 / 100))],
             items = [''apple'', ''banana''], tax = float_round (1 / 10)\<rparr>"
         "9 / 4" "[''apple'', ''banana'']" "[]" "3602879701896397 / 36028797018963968"]
    s t
  show ?thesis by (simp add: numeral_2_eq_2)
qed

text \<open>
  The claim as stated fails for large amounts. With the single price 50000000000000.61 and the
  tax rate 0.5 the raw tax is the float 25000000000000.305 and the raw total the float
  75000000000000.9 (the exact sum, 75000000000000.915, is not a float); the call returns
  50000000000000.61, 25000000000000.31 and 75000000000000.90. The cents differ by two; the
  returned floats differ by 3/256, more than a cent, taken exactly, and by 1/64 when the sum
  is formed in floating point.
\<close>

theorem rounding_drift_counterexample:
  "calculate_total
     \<lparr>costs = [(''x'', float_round (5000000000000061 / 100))], items = [''x''],
      tax = float_round (1 / 2)\<rparr>
   = Inr \<lparr>subtotal = Finite (3200000000000039 / 64),
          tax_amount = Finite (6400000000000079 / 256),
          total_amount = Finite (2400000000000029 / 32),
          items_found = [''x''], items_not_found = [], items_count = 1\<rparr>
   \<and> calculate_tax_and_total (Finite (3200000000000039 / 64)) (Finite (1 / 2))
       = (Finite (3200000000000039 / 128), Finite (2400000000000029 / 32))
   \<and> cents (3200000000000039 / 64) = 5000000000000061
   \<and> cents (3200000000000039 / 128) = 2500000000000031
   \<and> cents (2400000000000029 / 32) = 7500000000000090
   \<and> (1 :: int) < \<bar>7500000000000090 - (5000000000000061 + 2500000000000031)\<bar>
   \<and> (1 / 100 :: rat)
       < \<bar>2400000000000029 / 32 - (3200000000000039 / 64 + 6400000000000079 / 256)\<bar>
   \<and> fadd (Finite (3200000000000039 / 64)) (Finite (6400000000000079 / 256))
       = Finite (4800000000000059 / 64)
   \<and> (1 / 100 :: rat) < \<bar>2400000000000029 / 32 - 4800000000000059 / 64\<bar>"
proof (intro conjI)
  have p: "float_round (5000000000000061 / 100) = Finite (3200000000000039 / 64)"
    by (simp add: float_eval)
  have h: "float_round (1 / 2) = Finite (1 / 2)"
    by (simp add: float_eval)
  show tt: "calculate_tax_and_total (Finite (3200000000000039 / 64)) (Finite (1 / 2))
       = (Finite (3200000000000039 / 128), Finite (2400000000000029 / 32))"
    by (simp add: calculate_tax_and_total_def float_eval)
  show ca: "cents (3200000000000039 / 64) = 5000000000000061"
    by (simp add: cents_def float_eval)
  show cb: "cents (3200000000000039 / 128) = 2500000000000031"
    by (simp add: cents_def float_eval)
  show cc: "cents (2400000000000029 / 32) = 7500000000000090"
    by (simp add: cents_def float_eval)
  have fa: "float_round (5000000000000061 / 100) = Finite (3200000000000039 / 64)"
    by (rule p)
  have fb: "float_round (2500000000000031 / 100) = Finite (6400000000000079 / 256)"
    by (simp add: float_eval)
  have fc: "float_round (7500000000000090 / 100) = Finite (2400000000000029 / 32)"
    by (simp add: float_eval)
  have ra: "round_to_decimal_places (Finite (3200000000000039 / 64))
      = Inr (Finite (3200000000000039 / 64))"
    using ca fa by (simp add: cents_def quantize_cents_def)
  have rb: "round_to_decimal_places (Finite (3200000000000039 / 128))
      = Inr (Finite (6400000000000079 / 256))"
    using cb fb by (simp add: cents_def quantize_cents_def)
  have rc: "round_to_decimal_places (Finite (2400000000000029 / 32))
      = Inr (Finite (2400000000000029 / 32))"
    using cc fc by (simp add: cents_def quantize_cents_def)
  have sub: "calculate_subtotal [''x''] [(''x'', Finite (3200000000000039 / 64))]
      = (Finite (3200000000000039 / 64), [''x''], [])"
    by (simp add: calculate_subtotal_def strip_def is_space_def float_eval)
  show "calculate_total
     \<lparr>costs = [(''x'', float_round (5000000000000061 / 100))], items = [''x''],
      tax = float_round (1 / 2)\<rparr>
   = Inr \<lparr>subtotal = Finite (3200000000000039 / 64),
          tax_amount = Finite (6400000000000079 / 256),
          total_amount = Finite (2400000000000029 / 32),
          items_found = [''x''], items_not_found = [], items_count = 1\<rparr>"
    unfolding p h by (simp add: calculate_total_def sub tt round_all_def ra rb rc
        del: round_to_decimal_places.simps)
  show "(1 :: int) < \<bar>7500000000000090 - (5000000000000061 + 2500000000000031)\<bar>"
    by simp
  show "(1 / 100 :: rat)
       < \<bar>2400000000000029 / 32 - (3200000000000039 / 64 + 6400000000000079 / 256)\<bar>"
    by simp
  show "fadd (Finite (3200000000000039 / 64)) (Finite (6400000000000079 / 256))
       = Finite (4800000000000059 / 64)"
    by (simp add: float_eval)
  show "(1 / 100 :: rat) < \<bar>2400000000000029 / 32 - 4800000000000059 / 64\<bar>"
    by simp
qed

section \<open>The item-list parser\<close>

lemma strip_not_space_hd: "strip s \<noteq> [] \<Longrightarrow> \<not> is_space (hd (strip s))"
proof -
  assume ne: "strip s \<noteq> []"
  let ?t = "dropWhile is_space s"
  have split: "strip s @ rev (takeWhile is_space (rev ?t)) = ?t"
    unfolding strip_def by (metis rev_append rev_rev_ident takeWhile_dropWhile_id)
  then have "hd (strip s) = hd ?t" using ne by (metis hd_append2)
  moreover have "?t \<noteq> []" using split ne by (metis append_is_Nil_conv)
  ultimately show ?thesis by (metis hd_dropWhile)
qed

lemma strip_idem [simp]: "strip (strip s) = strip s"
proof -
  have a: "dropWhile is_space (strip s) = strip s"
    using strip_not_space_hd[of s] by (cases "strip s") auto
  have b: "dropWhile is_space (rev (strip s)) = rev (strip s)"
    by (simp add: strip_def)
  show ?thesis
    unfolding strip_def[of "strip s"] a b by simp
qed

lemma map_strip_filter:
  "map strip (filter (\<lambda>i. strip i \<noteq> []) xs) = filter (\<lambda>i. i \<noteq> []) (map strip xs)"
  by (induction xs) simp_all

lemma split_items_space_items:
  "filter (\<lambda>i. i \<noteq> []) (split_items (strip raw)) = space_items raw"
proof -
  consider (comma) "CHR '','' \<in> set (strip raw)"
    | (newline) "CHR '','' \<notin> set (strip raw)" "CHR 0x0A \<in> set (strip raw)"
    | (space) "CHR '','' \<notin> set (strip raw)" "CHR 0x0A \<notin> set (strip raw)"
        "CHR '' '' \<in> set (strip raw) \<and> 1 < length (split_ws (strip raw))"
    | (single) "CHR '','' \<notin> set (strip raw)" "CHR 0x0A \<notin> set (strip raw)"
        "\<not> (CHR '' '' \<in> set (strip raw) \<and> 1 < length (split_ws (strip raw)))"
    by blast
  then show ?thesis
  proof cases
    case comma
    then show ?thesis
      by (simp add: split_items_def space_items_def space_item_tokens_def map_strip_filter)
  next
    case newline
    then show ?thesis
      by (simp add: split_items_def space_items_def space_item_tokens_def map_strip_filter)
  next
    case space
    then show ?thesis
      by (simp add: split_items_def space_items_def space_item_tokens_def map_strip_filter)
  next
    case single
    then show ?thesis
      by (auto simp: split_items_def space_items_def space_item_tokens_def)
  qed
qed

text \<open>
  Claim C7, as amended. The item-list parser applies its rules in strict order on the trimmed
  input: a comma anywhere splits on commas; else a newline splits on newlines; else a space
  character (U+0020) together with more than one whitespace-separated token splits on runs of
  whitespace; else the whole trimmed string is the one item. Every token is trimmed, empty
  tokens are dropped, and the parser fails exactly when the resulting sequence is empty.
\<close>

theorem parse_items_precedence:
  "parse_items raw =
     (if space_items raw = []
      then Inl (ValueError (if strip raw = [] then ItemsInputEmpty else NoItems))
      else Inr (space_items raw))"
proof (cases "strip raw = []")
  case True
  then show ?thesis
    by (simp add: parse_items_def space_items_def space_item_tokens_def)
next
  case False
  then show ?thesis
    by (simp add: parse_items_def split_items_space_items split: list.splits)
qed

text \<open>
  The claim as stated asks the third rule to fire on any whitespace. A tab is whitespace, and
  \<open>"a<TAB>b"\<close> splits into two tokens, yet the parser returns it as one item.
\<close>

theorem parse_items_tab_counterexample:
  "parse_items (''a'' @ [CHR 0x09] @ ''b'') = Inr [''a'' @ [CHR 0x09] @ ''b'']
   \<and> spec_items (''a'' @ [CHR 0x09] @ ''b'') = [''a'', ''b'']"
  by (simp add: parse_items_def split_items_def spec_items_def spec_item_tokens_def
        split_ws_def strip_def is_space_def)


section \<open>The cost-list parser\<close>

lemmas string_eval = strip_def is_space_def split_ws_def starts_with_def

lemmas pyfloat_eval = py_float_def float_trim_def is_float_space_def float_signed_def
  float_unsigned_def lower_ascii_def char_of_eq_iff parse_decimal_def parse_fraction_def decimal_value_def
  exponent_digits_def digits_value_def is_digit_def

lemmas delimited_eval = parse_delimited_def is_line_sep_def match_line_def second_group_def
  store_price_def line_pair_def classify_line_def

lemmas json_eval = json_loads_def top_step_def escape_step_def hex_step_def hex_digit_def
  hex_value_def is_json_space_def is_letter_def is_atom_char_def atom_value_def
  number_body_def number_fraction_def number_value_def int_to_float_def

subsection \<open>The delimited format\<close>

lemma parse_lines_step:
  "parse_lines (line # rest) d =
     (case classify_line line of
        Skipped \<Rightarrow> parse_lines rest d
      | Rejected e \<Rightarrow> Inl e
      | Accepted item price \<Rightarrow> parse_lines rest (AList.update item price d))"
  by (simp add: classify_line_def line_pair_def store_price_def
        split: option.splits prod.splits)

lemma parse_lines_char:
  "parse_lines ls d =
     (case first_rejected ls of
        Some e \<Rightarrow> Inl e
      | None \<Rightarrow> Inr (write_all d (accepted_pairs ls)))"
proof (induction ls arbitrary: d)
  case Nil
  show ?case by (simp add: write_all_def)
next
  case (Cons line rest)
  show ?case
    unfolding parse_lines_step
    by (cases "classify_line line") (simp_all add: Cons.IH write_all_def split: option.splits)
qed

lemma map_of_write_all: "map_of (write_all d ps) = map_of d ++ map_of (rev ps)"
proof (induction ps arbitrary: d)
  case Nil
  show ?case by (simp add: write_all_def)
next
  case (Cons p ps)
  have "write_all d (p # ps) = write_all (AList.update (fst p) (snd p) d) ps"
    by (simp add: write_all_def)
  then show ?case
    by (simp add: Cons.IH update_conv' map_add_upd_left map_add_def fun_eq_iff split: option.splits)
qed

lemma find_colon_no_colon: "CHR '':'' \<notin> set s \<Longrightarrow> find_colon pre s = None"
  by (induction s arbitrary: pre) auto

lemma strip_subset: "set (strip s) \<subseteq> set s"
  unfolding strip_def by (metis set_dropWhileD set_rev subsetI)

lemma line_pair_no_colon: "CHR '':'' \<notin> set line \<Longrightarrow> line_pair line = None"
proof -
  assume "CHR '':'' \<notin> set line"
  then have "CHR '':'' \<notin> set (strip line)"
    using strip_subset[of line] by blast
  then show ?thesis
    by (simp add: line_pair_def match_line_def find_colon_no_colon)
qed

lemma update_not_Nil: "AList.update k v d \<noteq> []"
  by (cases d) simp_all

lemma write_all_not_Nil: "d \<noteq> [] \<Longrightarrow> write_all d ps \<noteq> []"
proof (induction ps arbitrary: d)
  case Nil
  then show ?case by (simp add: write_all_def)
next
  case (Cons p ps)
  have "write_all d (p # ps) = write_all (AList.update (fst p) (snd p) d) ps"
    by (simp add: write_all_def)
  then show ?case using Cons.IH[OF update_not_Nil] by simp
qed

lemma write_all_Nil_iff: "write_all [] ps = [] \<longleftrightarrow> ps = []"
proof (cases ps)
  case Nil
  then show ?thesis by (simp add: write_all_def)
next
  case (Cons p rest)
  have "write_all [] (p # rest) = write_all (AList.update (fst p) (snd p) []) rest"
    by (simp add: write_all_def)
  then show ?thesis
    using Cons write_all_not_Nil[of "AList.update (fst p) (snd p) []" rest] by simp
qed

lemma parse_delimited_char:
  "parse_delimited s =
     (case first_rejected (split_sep is_line_sep s) of
        Some e \<Rightarrow> Inl e
      | None \<Rightarrow>
          if accepted_pairs (split_sep is_line_sep s) = []
          then Inl (ValueError CouldNotParseCosts)
          else Inr (write_all [] (accepted_pairs (split_sep is_line_sep s))))"
proof (cases "first_rejected (split_sep is_line_sep s)")
  case (Some e)
  then show ?thesis by (simp add: parse_delimited_def parse_lines_char)
next
  case None
  then show ?thesis
    using write_all_Nil_iff[of "accepted_pairs (split_sep is_line_sep s)"]
    by (cases "write_all [] (accepted_pairs (split_sep is_line_sep s))")
       (simp_all add: parse_delimited_def parse_lines_char)
qed

lemma parse_costs_not_brace:
  "strip raw \<noteq> [] \<Longrightarrow> \<not> starts_with (strip raw) ''{'' \<Longrightarrow>
     parse_costs raw = parse_delimited (strip raw)"
  by (simp add: parse_costs_def)

text \<open>
  Claim C6, as amended. In the delimited format (the trimmed input split on commas,
  semicolons and newlines) the parser fails with the error of the first rejected line, else
  fails when no pair was accepted, else returns the accepted pairs written in order. A line of
  the form \<open>name:price\<close> (a colon after a non-empty name and before a non-empty price) is
  rejected when \<open>float\<close> does not accept the price text and when the price is negative, and is
  accepted otherwise, which includes the prices \<open>inf\<close>, \<open>infinity\<close> and \<open>nan\<close>. A line
  without a colon is skipped. Writing in order is last-write-wins: looking a name up in the
  result finds the last price written for it.
\<close>

theorem parse_costs_delimited:
  "(strip raw \<noteq> [] \<and> \<not> starts_with (strip raw) ''{'' \<longrightarrow>
      parse_costs raw = parse_delimited (strip raw))
   \<and> parse_delimited s =
       (case first_rejected (split_sep is_line_sep s) of
          Some e \<Rightarrow> Inl e
        | None \<Rightarrow>
            if accepted_pairs (split_sep is_line_sep s) = []
            then Inl (ValueError CouldNotParseCosts)
            else Inr (write_all [] (accepted_pairs (split_sep is_line_sep s))))
   \<and> (line_pair line = Some (item, price_str) \<and> py_float price_str = None \<longrightarrow>
        (\<exists>e. classify_line line = Rejected (ValueError e)))
   \<and> (line_pair line = Some (item, price_str) \<and> py_float price_str = Some price
        \<and> float_negative price \<longrightarrow>
        classify_line line = Rejected (ValueError (CostNegative item)))
   \<and> (line_pair line = Some (item, price_str) \<and> py_float price_str = Some price
        \<and> \<not> float_negative price \<longrightarrow>
        classify_line line = Accepted item price)
   \<and> (CHR '':'' \<notin> set line \<longrightarrow> classify_line line = Skipped)
   \<and> map_of (write_all d ps) = map_of d ++ map_of (rev ps)"
proof (intro conjI impI)
  assume "strip raw \<noteq> [] \<and> \<not> starts_with (strip raw) ''{''"
  then show "parse_costs raw = parse_delimited (strip raw)"
    by (simp add: parse_costs_not_brace)
next
  show "parse_delimited s =
       (case first_rejected (split_sep is_line_sep s) of
          Some e \<Rightarrow> Inl e
        | None \<Rightarrow>
            if accepted_pairs (split_sep is_line_sep s) = []
            then Inl (ValueError CouldNotParseCosts)
            else Inr (write_all [] (accepted_pairs (split_sep is_line_sep s))))"
    by (rule parse_delimited_char)
next
  assume "line_pair line = Some (item, price_str) \<and> py_float price_str = None"
  then show "\<exists>e. classify_line line = Rejected (ValueError e)"
    by (simp add: classify_line_def)
next
  assume "line_pair line = Some (item, price_str) \<and> py_float price_str = Some price
        \<and> float_negative price"
  then show "classify_line line = Rejected (ValueError (CostNegative item))"
    by (simp add: classify_line_def)
next
  assume "line_pair line = Some (item, price_str) \<and> py_float price_str = Some price
        \<and> \<not> float_negative price"
  then show "classify_line line = Accepted item price"
    by (simp add: classify_line_def)
next
  assume "CHR '':'' \<notin> set line"
  then show "classify_line line = Skipped"
    by (simp add: classify_line_def line_pair_no_colon)
next
  show "map_of (write_all d ps) = map_of d ++ map_of (rev ps)"
    by (rule map_of_write_all)
qed

theorem parse_costs_delimited_witness:
  "parse_costs ''a: 1; junk, a: 2'' = Inr [(''a'', Finite 2)]
   \<and> line_pair ''b: x1'' = Some (''b'', ''x1'') \<and> py_float ''x1'' = None
   \<and> (\<exists>e. classify_line ''b: x1'' = Rejected (ValueError e))
   \<and> line_pair ''b: -1'' = Some (''b'', ''-1'') \<and> py_float ''-1'' = Some (Finite (- 1))
   \<and> classify_line ''b: -1'' = Rejected (ValueError (CostNegative ''b''))
   \<and> line_pair ''b: 2.5'' = Some (''b'', ''2.5'') \<and> py_float ''2.5'' = Some (Finite (5 / 2))
   \<and> classify_line ''b: 2.5'' = Accepted ''b'' (Finite (5 / 2))
   \<and> classify_line ''junk'' = Skipped
   \<and> map_of (write_all [] [(''a'', Finite 1), (''a'', Finite 2)]) ''a'' = Some (Finite 2)"
proof -
  have s: "strip ''a: 1; junk, a: 2'' \<noteq> [] \<and> \<not> starts_with (strip ''a: 1; junk, a: 2'') ''{''"
    by (simp add: string_eval)
  have d: "parse_delimited (strip ''a: 1; junk, a: 2'') = Inr [(''a'', Finite 2)]"
    by (simp add: string_eval delimited_eval pyfloat_eval float_eval)
  have x: "line_pair ''b: x1'' = Some (''b'', ''x1'') \<and> py_float ''x1'' = None"
    by (simp add: string_eval delimited_eval pyfloat_eval)
  have n: "line_pair ''b: -1'' = Some (''b'', ''-1'') \<and> py_float ''-1'' = Some (Finite (- 1))
      \<and> float_negative (Finite (- 1))"
    by (simp add: string_eval delimited_eval pyfloat_eval float_eval)
  have a: "line_pair ''b: 2.5'' = Some (''b'', ''2.5'') \<and> py_float ''2.5'' = Some (Finite (5 / 2))
      \<and> \<not> float_negative (Finite (5 / 2))"
    by (simp add: string_eval delimited_eval pyfloat_eval float_eval)
  have j: "CHR '':'' \<notin> set ''junk''"
    by simp
  have w: "(map_of [] ++ map_of (rev [(''a'', Finite 1), (''a'', Finite 2)])) ''a''
      = Some (Finite 2)"
    by simp
  note t = parse_costs_delimited
  from t [of "''a: 1; junk, a: 2''"] s d have 1: "parse_costs ''a: 1; junk, a: 2'' = Inr [(''a'', Finite 2)]"
    by simp
  from t [of _ _ "''b: x1''" "''b''" "''x1''"] x
  have 2: "\<exists>e. classify_line ''b: x1'' = Rejected (ValueError e)"
    by blast
  from t [of _ _ "''b: -1''" "''b''" "''-1''" "Finite (- 1)"] n
  have 3: "classify_line ''b: -1'' = Rejected (ValueError (CostNegative ''b''))"
    by blast
  from t [of _ _ "''b: 2.5''" "''b''" "''2.5''" "Finite (5 / 2)"] a
  have 4: "classify_line ''b: 2.5'' = Accepted ''b'' (Finite (5 / 2))"
    by blast
  from t [of _ _ "''junk''"] j have 5: "classify_line ''junk'' = Skipped"
    by blast
  from t [of _ _ _ _ _ _ "[]" "[(''a'', Finite 1), (''a'', Finite 2)]"] w
  have 6: "map_of (write_all [] [(''a'', Finite 1), (''a'', Finite 2)]) ''a'' = Some (Finite 2)"
    by simp
  from 1 2 3 4 5 6 x n a show ?thesis by simp
qed

text \<open>
  The claim as stated fails on a non-finite price: \<open>a: inf\<close> and \<open>a: nan\<close> are accepted. It
  also fails on a line that holds a colon and no price: \<open>a:\<close> is skipped, and the rest of the
  input decides the outcome.
\<close>

theorem parse_costs_nonfinite_counterexample:
  "parse_costs ''a: inf'' = Inr [(''a'', PInf)]
   \<and> parse_costs ''a: nan'' = Inr [(''a'', NaN)]
   \<and> parse_costs ''a:, b: 1'' = Inr [(''b'', Finite 1)]"
  by (simp add: parse_costs_def string_eval delimited_eval pyfloat_eval float_eval)

subsection \<open>The JSON format\<close>

lemma brace_not_empty: "starts_with s ''{'' \<Longrightarrow> s \<noteq> []"
  by (cases s) (simp_all add: starts_with_def)

lemma parse_costs_json_object:
  "starts_with (strip raw) ''{'' \<Longrightarrow> json_loads (strip raw) = Inr (JObject pairs) \<Longrightarrow>
     parse_costs raw = validate_costs pairs"
  using brace_not_empty[of "strip raw"] by (simp add: parse_costs_def)

text \<open>
  Claim C5 at the input \<open>{"a": true}\<close>: the text decodes to a JSON object whose value is not
  a number, and the parser returns the mapping from \<open>a\<close> to 1.0.
\<close>

theorem parse_costs_json_true:
  "json_loads (''{'' @ [CHR 0x22] @ ''a'' @ [CHR 0x22] @ '': true}'')
     = Inr (JObject [(''a'', JBool True)])
   \<and> parse_costs (''{'' @ [CHR 0x22] @ ''a'' @ [CHR 0x22] @ '': true}'')
     = Inr [(''a'', Finite 1)]"
  by (simp add: parse_costs_def json_eval pyfloat_eval string_eval)

text \<open>
  Claim C10. When the trimmed input starts with \<open>{\<close> and \<open>json.loads\<close> raises
  \<open>JSONDecodeError\<close>, the parser does not fail there: its result is that of the delimited
  format on the same trimmed text. So \<open>{a: 1}\<close> fails on the price text \<open>1}\<close>, and \<open>{a: 1\<close>
  succeeds with the name \<open>{a\<close>.
\<close>

theorem parse_costs_json_fallthrough:
  "(starts_with (strip raw) ''{'' \<and> json_loads (strip raw) = Inl JSONDecodeError \<longrightarrow>
      parse_costs raw = parse_delimited (strip raw))
   \<and> json_loads ''{a: 1}'' = Inl JSONDecodeError
   \<and> parse_costs ''{a: 1}'' = Inl (ValueError (InvalidPriceFormat ''{a'' ''1}''))
   \<and> json_loads ''{a: 1'' = Inl JSONDecodeError
   \<and> parse_costs ''{a: 1'' = Inr [(''{a'', Finite 1)]"
proof (intro conjI impI)
  assume "starts_with (strip raw) ''{'' \<and> json_loads (strip raw) = Inl JSONDecodeError"
  then show "parse_costs raw = parse_delimited (strip raw)"
    using brace_not_empty[of "strip raw"] by (simp add: parse_costs_def)
next
  show "json_loads ''{a: 1}'' = Inl JSONDecodeError"
    by (simp add: json_eval pyfloat_eval)
  show "parse_costs ''{a: 1}'' = Inl (ValueError (InvalidPriceFormat ''{a'' ''1}''))"
    by (simp add: parse_costs_def json_eval string_eval delimited_eval pyfloat_eval float_eval)
  show "json_loads ''{a: 1'' = Inl JSONDecodeError"
    by (simp add: json_eval pyfloat_eval)
  show "parse_costs ''{a: 1'' = Inr [(''{a'', Finite 1)]"
    by (simp add: parse_costs_def json_eval string_eval delimited_eval pyfloat_eval float_eval)
qed

theorem parse_costs_json_fallthrough_witness:
  "starts_with (strip '' {a: 1 '') ''{'' \<and> json_loads (strip '' {a: 1 '') = Inl JSONDecodeError
   \<and> parse_costs '' {a: 1 '' = parse_delimited (strip '' {a: 1 '')
   \<and> parse_delimited (strip '' {a: 1 '') = Inr [(''{a'', Finite 1)]"
proof -
  have h: "starts_with (strip '' {a: 1 '') ''{''
      \<and> json_loads (strip '' {a: 1 '') = Inl JSONDecodeError"
    by (simp add: string_eval json_eval pyfloat_eval)
  have d: "parse_delimited (strip '' {a: 1 '') = Inr [(''{a'', Finite 1)]"
    by (simp add: string_eval delimited_eval pyfloat_eval float_eval)
  from parse_costs_json_fallthrough [of "'' {a: 1 ''"] h d show ?thesis by blast
qed

section \<open>The dictionary service\<close>

lemma lower_char_space: "is_space (lower_char c) = is_space c"
proof -
  have "of_char c < (256 :: nat)" by simp
  then show ?thesis
    by (auto simp: lower_char_def is_space_def)
qed

lemma dropWhile_space_lower: "dropWhile is_space (lower s) = lower (dropWhile is_space s)"
  by (induction s) (simp_all add: lower_def lower_char_space)

lemma strip_lower: "strip (lower s) = lower (strip s)"
proof -
  have r: "rev (lower s) = lower (rev s)" for s
    by (simp add: lower_def rev_map)
  show ?thesis
    by (simp add: strip_def dropWhile_space_lower r)
qed

lemma lower_Nil_iff: "lower s = [] \<longleftrightarrow> s = []"
  by (simp add: lower_def)

lemma find_None_iff_list_ex: "find P xs = None \<longleftrightarrow> \<not> list_ex P xs"
  by (auto simp: find_None_iff list_ex_iff)

lemma add_word_new:
  assumes absent: "find_by_word repo (lower (strip w)) = None"
    and w: "strip w \<noteq> []" and d: "strip d \<noteq> []"
  shows "add_word repo w d =
    (Inr \<lparr>entry_word = lower (strip w), entry_definition = strip d\<rparr>,
     \<lparr>rows = rows repo @ pending repo
        @ [\<lparr>entry_word = lower (strip w), entry_definition = strip d\<rparr>],
      pending = []\<rparr>)"
proof -
  have k: "strip (lower (strip w)) = lower (strip w)"
    by (simp add: strip_lower)
  have ne: "lower (strip w) \<noteq> []" using w by (simp add: lower_Nil_iff)
  have v: "validate_word_input w d = None"
    using w d by (auto simp: validate_word_input_def)
  have u: "\<not> list_ex (same_word (lower (strip w))) (rows repo @ pending repo)"
    using absent by (simp add: find_by_word_def find_None_iff_list_ex)
  show ?thesis
    using u ne d by (simp add: add_word_def v absent create_def k commit_def)
qed


lemma find_appended:
  assumes "find P xs = None" and "P x"
  shows "find P (xs @ [x]) = Some x"
  using assms by (induction xs) (simp_all split: if_splits)

lemma get_word_after_add:
  assumes absent: "find_by_word repo (lower (strip w)) = None"
    and w: "strip w \<noteq> []" and d: "strip d \<noteq> []"
    and same: "lower (strip w') = lower (strip w)"
  shows "get_word (snd (add_word repo w d)) w'
    = Inr \<lparr>entry_word = lower (strip w), entry_definition = strip d\<rparr>"
proof -
  have ne: "strip w' \<noteq> []"
    using same w by (metis lower_Nil_iff)
  have f: "find (same_word (lower (strip w))) (rows repo @ pending repo) = None"
    using absent by (simp add: find_by_word_def)
  have p: "same_word (lower (strip w))
      \<lparr>entry_word = lower (strip w), entry_definition = strip d\<rparr>"
    by (simp add: same_word_def)
  have "find_by_word (snd (add_word repo w d)) (lower (strip w))
      = Some \<lparr>entry_word = lower (strip w), entry_definition = strip d\<rparr>"
    using find_appended[OF f p] by (simp add: add_word_new[OF absent w d] find_by_word_def)
  then show ?thesis
    using ne by (auto simp: get_word_def same)
qed

lemma add_word_again:
  assumes absent: "find_by_word repo (lower (strip w)) = None"
    and w: "strip w \<noteq> []" and d: "strip d \<noteq> []"
    and same: "lower (strip w') = lower (strip w)" and d': "strip d' \<noteq> []"
  shows "fst (add_word (snd (add_word repo w d)) w' d')
    = Inl (DictionaryWordAlreadyExistsError (lower (strip w)))"
proof -
  have ne: "strip w' \<noteq> []"
    using same w by (metis lower_Nil_iff)
  have v: "validate_word_input w' d' = None"
    using ne d' by (auto simp: validate_word_input_def)
  have f: "find (same_word (lower (strip w))) (rows repo @ pending repo) = None"
    using absent by (simp add: find_by_word_def)
  have p: "same_word (lower (strip w))
      \<lparr>entry_word = lower (strip w), entry_definition = strip d\<rparr>"
    by (simp add: same_word_def)
  have "find_by_word (snd (add_word repo w d)) (lower (strip w))
      = Some \<lparr>entry_word = lower (strip w), entry_definition = strip d\<rparr>"
    using find_appended[OF f p] by (simp add: add_word_new[OF absent w d] find_by_word_def)
  then show ?thesis
    by (simp add: add_word_def v same)
qed

lemma get_word_missing:
  assumes "find_by_word repo (lower (strip w)) = None" and "strip w \<noteq> []"
  shows "get_word repo w = Inl (DictionaryWordNotFoundError (lower (strip w)))"
  using assms by (auto simp: get_word_def)

lemmas lower_eval = lower_def lower_char_def char_of_eq_iff


text \<open>
  Claim C8. In a store with no entry for the lowercased, trimmed word, \<open>add\<close> of a word with
  a definition that is not blank succeeds and returns the entry with the lowercased word and
  the trimmed definition; \<open>get\<close> of any casing of the word then returns that entry; a second
  \<open>add\<close> of any casing of it fails with \<open>DictionaryWordAlreadyExistsError\<close>; and \<open>get\<close> of a
  word with no entry fails with \<open>DictionaryWordNotFoundError\<close>. \<open>Python\<close>, \<open>PYTHON\<close> and
  \<open>python\<close> are casings of one word, stored as \<open>python\<close>.
\<close>

theorem dictionary_round_trip:
  "(find_by_word repo (lower (strip w)) = None \<and> strip w \<noteq> [] \<and> strip d \<noteq> [] \<longrightarrow>
      fst (add_word repo w d)
        = Inr \<lparr>entry_word = lower (strip w), entry_definition = strip d\<rparr>
      \<and> (lower (strip w') = lower (strip w) \<longrightarrow>
           get_word (snd (add_word repo w d)) w'
             = Inr \<lparr>entry_word = lower (strip w), entry_definition = strip d\<rparr>
           \<and> (strip d' \<noteq> [] \<longrightarrow>
                fst (add_word (snd (add_word repo w d)) w' d')
                  = Inl (DictionaryWordAlreadyExistsError (lower (strip w))))))
   \<and> (find_by_word repo (lower (strip v)) = None \<and> strip v \<noteq> [] \<longrightarrow>
        get_word repo v = Inl (DictionaryWordNotFoundError (lower (strip v))))
   \<and> lower (strip ''Python'') = ''python''
   \<and> lower (strip ''PYTHON'') = ''python''
   \<and> lower (strip ''python'') = ''python''"
proof (intro conjI impI)
  assume h: "find_by_word repo (lower (strip w)) = None \<and> strip w \<noteq> [] \<and> strip d \<noteq> []"
  then show "fst (add_word repo w d)
      = Inr \<lparr>entry_word = lower (strip w), entry_definition = strip d\<rparr>"
    by (simp add: add_word_new)
  assume s: "lower (strip w') = lower (strip w)"
  show "get_word (snd (add_word repo w d)) w'
      = Inr \<lparr>entry_word = lower (strip w), entry_definition = strip d\<rparr>"
    using h s by (simp add: get_word_after_add)
  assume "strip d' \<noteq> []"
  then show "fst (add_word (snd (add_word repo w d)) w' d')
      = Inl (DictionaryWordAlreadyExistsError (lower (strip w)))"
    using h s by (simp add: add_word_again)
next
  assume "find_by_word repo (lower (strip v)) = None \<and> strip v \<noteq> []"
  then show "get_word repo v = Inl (DictionaryWordNotFoundError (lower (strip v)))"
    by (simp add: get_word_missing)
next
  show "lower (strip ''Python'') = ''python''"
    by (simp add: lower_eval string_eval)
  show "lower (strip ''PYTHON'') = ''python''"
    by (simp add: lower_eval string_eval)
  show "lower (strip ''python'') = ''python''"
    by (simp add: lower_eval string_eval)
qed

theorem dictionary_round_trip_witness:
  "find_by_word \<lparr>rows = [], pending = []\<rparr> (lower (strip ''Python'')) = None
   \<and> strip ''Python'' \<noteq> [] \<and> strip '' A language. '' \<noteq> []
   \<and> lower (strip ''PYTHON'') = lower (strip ''Python'')
   \<and> fst (add_word \<lparr>rows = [], pending = []\<rparr> ''Python'' '' A language. '')
       = Inr \<lparr>entry_word = ''python'', entry_definition = ''A language.''\<rparr>
   \<and> get_word (snd (add_word \<lparr>rows = [], pending = []\<rparr> ''Python'' '' A language. ''))
         ''PYTHON''
       = Inr \<lparr>entry_word = ''python'', entry_definition = ''A language.''\<rparr>
   \<and> fst (add_word (snd (add_word \<lparr>rows = [], pending = []\<rparr> ''Python'' '' A language. ''))
         ''PYTHON'' ''again'')
       = Inl (DictionaryWordAlreadyExistsError ''python'')
   \<and> get_word \<lparr>rows = [], pending = []\<rparr> ''missing''
       = Inl (DictionaryWordNotFoundError ''missing'')"
proof -
  have a: "find_by_word \<lparr>rows = [], pending = []\<rparr> (lower (strip ''Python'')) = None
      \<and> strip ''Python'' \<noteq> [] \<and> strip '' A language. '' \<noteq> []"
    by (simp add: find_by_word_def string_eval)
  have b: "lower (strip ''PYTHON'') = lower (strip ''Python'')"
    by (simp add: lower_eval string_eval)
  have c: "strip ''again'' \<noteq> []"
    by (simp add: string_eval)
  have m: "find_by_word \<lparr>rows = [], pending = []\<rparr> (lower (strip ''missing'')) = None
      \<and> strip ''missing'' \<noteq> []"
    by (simp add: find_by_word_def string_eval)
  have e: "lower (strip ''Python'') = ''python'' \<and> strip '' A language. '' = ''A language.''
      \<and> lower (strip ''missing'') = ''missing''"
    by (simp add: lower_eval string_eval)
  from dictionary_round_trip
    [of "\<lparr>rows = [], pending = []\<rparr>" "''Python''" "'' A language. ''" "''PYTHON''"
        "''again''" "''missing''"]
    a b c m e
  show ?thesis by simp
qed

end
